theory Spec2Isabelle
  imports Main "HOL-Library.Multiset" "HOL-Library.AList" "HOL-Library.Word"
begin

section \<open>The ApplicationVolumeReplication controller\<close>

text \<open>
  A shallow embedding of \<^verbatim>\<open>controllers/applicationvolumereplication_controller.go\<close>.
  Go structs are records, nullable pointers and nil-able maps are options, Go maps are
  partial functions (or association lists where the code takes \<^verbatim>\<open>len\<close> or ranges over
  them), errors are values of the datatype \<open>error\<close>, and a run-time panic is a value of
  the datatype \<open>panic\<close>.
\<close>

subsection \<open>Conditions of a ManifestWork\<close>

text \<open>
  A \<^verbatim>\<open>metav1.Time\<close> wraps a \<^verbatim>\<open>time.Time\<close>: the wall-clock instant, the reading of the
  monotonic clock that \<^verbatim>\<open>time.Now\<close> attaches (no encoding keeps it), and the pointer to the
  location the time is shown in. The operator \<^verbatim>\<open>==\<close> compares the three fields, so it is
  the equality of the record. \<^verbatim>\<open>Before\<close> compares the monotonic readings when both times
  carry one, and the instants otherwise; it never looks at the location.
\<close>

type_synonym Location = nat

record Time =
  wallClock :: int
  monotonicReading :: "int option"
  loc :: Location

definition Before :: "Time \<Rightarrow> Time \<Rightarrow> bool" where
  "Before t u =
     (case (monotonicReading t, monotonicReading u) of
        (Some a, Some b) \<Rightarrow> a < b
      | _ \<Rightarrow> wallClock t < wallClock u)"

record Condition =
  Type :: string
  Status :: string
  LastTransitionTime :: Time
  Reason :: string
  Message :: string

text \<open>Constants of the imported API packages (\<^verbatim>\<open>ocmworkv1\<close>, \<^verbatim>\<open>metav1\<close>).\<close>

definition WorkApplied :: string where
  "WorkApplied = ''Applied''"

definition WorkDegraded :: string where
  "WorkDegraded = ''Degraded''"

definition ConditionTrue :: string where
  "ConditionTrue = ''True''"

datatype panic = IndexOutOfRange

subsection \<open>sort.Slice\<close>

text \<open>
  \<^verbatim>\<open>sort.Slice\<close> reorders the slice in place so that it is sorted with respect to its
  comparator \<open>lessFn\<close>. The sort is not stable: the order it leaves among elements that
  compare equal depends on the version of the library. The model runs an insertion sort,
  as the library does on short slices: for each index \<open>i\<close>, the element \<open>data[i]\<close> is
  swapped leftwards while it is \<open>lessFn\<close> than its left neighbour.
\<close>

definition insertionStep :: "('a \<Rightarrow> 'a \<Rightarrow> bool) \<Rightarrow> 'a list \<Rightarrow> 'a \<Rightarrow> 'a list" where
  "insertionStep lessFn sortedPrefix x =
     rev (dropWhile (lessFn x) (rev sortedPrefix)) @ x # rev (takeWhile (lessFn x) (rev sortedPrefix))"

definition sort_Slice :: "('a \<Rightarrow> 'a \<Rightarrow> bool) \<Rightarrow> 'a list \<Rightarrow> 'a list" where
  "sort_Slice lessFn data = foldl (insertionStep lessFn) [] data"

subsection \<open>The condition evaluator\<close>

text \<open>The comparator of \<^verbatim>\<open>getMostRecentConditions\<close>: \<open>a\<close> sorts before \<open>b\<close> when \<open>b\<close> is older.\<close>

definition moreRecent :: "Condition \<Rightarrow> Condition \<Rightarrow> bool" where
  "moreRecent a b = Before (LastTransitionTime b) (LastTransitionTime a)"

definition filterByConditionStatus :: "Condition list \<Rightarrow> string \<Rightarrow> Condition list" where
  "filterByConditionStatus conditions status = filter (\<lambda>condition. Status condition = status) conditions"

text \<open>
  \<^verbatim>\<open>getMostRecentConditions\<close> sorts the slice it is given in place, so the model returns
  the caller's slice after the call together with the result. \<^verbatim>\<open>conditions[0]\<close> on an
  empty slice panics. The loop keeps the leading conditions whose timestamp is \<^verbatim>\<open>==\<close> to
  the first one's.
\<close>

definition getMostRecentConditions :: "Condition list \<Rightarrow> panic + (Condition list \<times> Condition list)" where
  "getMostRecentConditions conditions =
     (let sorted = sort_Slice moreRecent conditions in
      case sorted of
        [] \<Rightarrow> Inl IndexOutOfRange
      | c0 # _ \<Rightarrow>
          Inr (sorted,
               takeWhile (\<lambda>c. LastTransitionTime c = LastTransitionTime c0) sorted))"

text \<open>
  A \<^verbatim>\<open>Manifest\<close> is a \<^verbatim>\<open>RawExtension\<close> holding the JSON bytes of one object. The spec of a
  ManifestWork is its slice of manifests (\<^verbatim>\<open>Spec.Workload.Manifests\<close>), its status is its list
  of conditions (\<^verbatim>\<open>Status.Conditions\<close>). The slice of manifests is \<open>None\<close> when it is nil and
  \<open>Some []\<close> when it is empty but not nil: \<^verbatim>\<open>reflect.DeepEqual\<close> on the spec tells the two
  apart, and it is the equality of \<open>Manifests\<close>.
\<close>

type_synonym Manifest = string

record ManifestWork =
  mwName :: string
  mwNamespace :: string
  mwLabels :: "string \<rightharpoonup> string"
  Manifests :: "Manifest list option"
  Conditions :: "Condition list"

text \<open>The loop over \<open>recentConditions\<close>: the pair is \<open>(applied, degraded)\<close>.\<close>

fun scanConditions :: "Condition list \<Rightarrow> bool \<times> bool \<Rightarrow> bool \<times> bool" where
  "scanConditions [] flags = flags"
| "scanConditions (condition # rest) (applied, degraded) =
     (if Type condition = WorkApplied then scanConditions rest (True, degraded)
      else if Type condition = WorkDegraded then scanConditions rest (applied, True)
      else scanConditions rest (applied, degraded))"

text \<open>
  \<^verbatim>\<open>IsManifestInAppliedState\<close> returns the boolean and the ManifestWork as the call leaves
  it (its condition slice is the one \<^verbatim>\<open>getMostRecentConditions\<close> sorted in place).
\<close>

definition IsManifestInAppliedState :: "ManifestWork \<Rightarrow> panic + (bool \<times> ManifestWork)" where
  "IsManifestInAppliedState mw =
     (let conditions = Conditions mw in
      if length conditions > 0 then
        (case getMostRecentConditions conditions of
           Inl p \<Rightarrow> Inl p
         | Inr (conditions', recent) \<Rightarrow>
             (let recentConditions = filterByConditionStatus recent ConditionTrue;
                  (applied, degraded) = scanConditions recentConditions (False, False);
                  applied = (if degraded then False else applied)
              in Inr (applied, mw\<lparr>Conditions := conditions'\<rparr>)))
      else Inr (False, mw))"


subsection \<open>Objects of the hub cluster\<close>

text \<open>A \<^verbatim>\<open>types.NamespacedName\<close>, written \<open>(Namespace, Name)\<close>.\<close>

type_synonym NamespacedName = "string \<times> string"

datatype error = NotFound | AlreadyExists | IOError | Failure string | Wrap string error

record ObjectReference =
  refName :: string
  refNamespace :: string

record Placement =
  Local :: "bool option"
  PlacementRef :: "ObjectReference option"

text \<open>The per-cluster status of a subscription is opaque here: only its presence is read.\<close>

type_synonym SubscriptionPerClusterStatus = string

record Subscription =
  subName :: string
  subNamespace :: string
  subLabels :: "(string \<rightharpoonup> string) option"
  subPlacement :: "Placement option"
  Phase :: string
  Statuses :: "(string \<rightharpoonup> SubscriptionPerClusterStatus option) option"

record SubscriptionPlacementDecision =
  HomeCluster :: string
  PeerCluster :: string

text \<open>
  \<^verbatim>\<open>SubscriptionPlacementDecisionMap\<close> is an association list with distinct keys: the
  code takes its \<^verbatim>\<open>len\<close>. Its entries are non-nil (the controller stores no nil decision).
  \<open>Decisions = None\<close> is the nil map. \<open>FailoverClusters\<close> is only ever indexed, where a nil
  map and an empty one agree.
\<close>

type_synonym SubscriptionPlacementDecisionMap = "(string \<times> SubscriptionPlacementDecision) list"

record ApplicationVolumeReplication =
  avrName :: string
  avrNamespace :: string
  FailoverClusters :: "string \<rightharpoonup> string"
  S3Endpoint :: string
  S3SecretName :: string
  Decisions :: "SubscriptionPlacementDecisionMap option"

record PlacementRule =
  plName :: string
  plNamespace :: string
  ClusterReplicas :: "32 word option"

record ManagedCluster =
  mcName :: string

type_synonym PersistentVolume = string

text \<open>The objects this controller serialises into manifests.\<close>

datatype Object =
    ClusterRole string "(string list \<times> string list \<times> string list) list"
  | ClusterRoleBinding string "(string \<times> string \<times> string) list" "string \<times> string \<times> string"
  | VolumeReplicationGroup string string "(string \<times> string) list" string string string string
  | PersistentVolumeObject PersistentVolume

text \<open>Constants of this file and of the imported subscription API.\<close>

definition RamenDRLabelName :: string where
  "RamenDRLabelName = ''ramendr''"

definition MWTypeVRG :: string where
  "MWTypeVRG = ''vrg''"

definition MWTypePV :: string where
  "MWTypePV = ''pv''"

definition LabelSubscriptionPause :: string where
  "LabelSubscriptionPause = ''subscription-pause''"

definition SubscriptionSubscribed :: string where
  "SubscriptionSubscribed = ''Subscribed''"

definition SubscriptionPropagated :: string where
  "SubscriptionPropagated = ''Propagated''"

text \<open>\<^verbatim>\<open>fmt.Sprintf(ManifestWorkNameFormat, name, namespace, mwType)\<close> with the format \<^verbatim>\<open>%s-%s-%s-mw\<close>.\<close>

definition ManifestWorkName :: "string \<Rightarrow> string \<Rightarrow> string \<Rightarrow> string" where
  "ManifestWorkName name namespace mwType = name @ ''-'' @ namespace @ ''-'' @ mwType @ ''-mw''"

subsection \<open>The reconciler and the object store behind its client\<close>

text \<open>
  The calls the controller issues through \<^verbatim>\<open>r.Client\<close>, in the order it issues them.
\<close>

datatype Call =
    GetAVR NamespacedName
  | ListSubscriptions string
  | GetManifestWork NamespacedName
  | CreateManifestWork ManifestWork
  | UpdateManifestWork ManifestWork
  | DeleteManifestWork ManifestWork
  | GetPlacementRule NamespacedName
  | UpdateSubscription Subscription
  | StatusUpdateAVR ApplicationVolumeReplication

text \<open>
  The reconciler, with the state of the declarative object store its client talks to. The
  store is external to the controller; it is modelled as the spec describes it: get
  returns the object or NotFound, create, update, delete and status update change the
  stored object, and every operation may fail with an I/O error distinct from NotFound.
  \<^item> \<open>manifestWorks\<close>, \<open>placementRules\<close>, \<open>subscriptions\<close>, \<open>avrs\<close>: the stored objects;
  \<^item> \<open>calls\<close>: the log of client calls issued so far;
  \<^item> \<open>faults\<close>: the schedule of I/O failures, one entry consumed per client call
    (\<open>True\<close>: that call fails with \<open>IOError\<close> and changes nothing; an exhausted schedule
    means no further failure);
  \<^item> \<open>S3\<close>: the \<^verbatim>\<open>S3StoreInterface\<close> of the reconciler (endpoint, secret key, caller tag,
    bucket);
  \<^item> \<open>PlaceByGenericPlacmentFields\<close>: the imported placement resolver; its result is the
    cluster map (its values non-nil) in the order this run iterates over it;
  \<^item> \<open>constructBucketName\<close>, \<open>jsonMarshal\<close>: a helper of this package defined in another
    file, and \<^verbatim>\<open>encoding/json\<close>, taken as parameters.
\<close>

record Reconciler =
  manifestWorks :: "NamespacedName \<rightharpoonup> ManifestWork"
  placementRules :: "NamespacedName \<rightharpoonup> PlacementRule"
  subscriptions :: "Subscription list"
  avrs :: "NamespacedName \<rightharpoonup> ApplicationVolumeReplication"
  calls :: "Call list"
  faults :: "bool list"
  S3 :: "string \<Rightarrow> NamespacedName \<Rightarrow> string \<Rightarrow> string \<Rightarrow> error + PersistentVolume list"
  PlaceByGenericPlacmentFields :: "PlacementRule \<Rightarrow> error + (string \<times> ManagedCluster) list"
  constructBucketName :: "string \<Rightarrow> string \<Rightarrow> string"
  jsonMarshal :: "Object \<Rightarrow> error + string"

text \<open>A client call is logged, then it consumes one entry of the fault schedule.\<close>

definition issue :: "Call \<Rightarrow> Reconciler \<Rightarrow> bool \<times> Reconciler" where
  "issue c r =
     (case faults r of
        [] \<Rightarrow> (False, r\<lparr>calls := calls r @ [c]\<rparr>)
      | failed # rest \<Rightarrow> (failed, r\<lparr>calls := calls r @ [c], faults := rest\<rparr>))"

definition clientGetManifestWork ::
  "NamespacedName \<Rightarrow> Reconciler \<Rightarrow> (error + ManifestWork) \<times> Reconciler" where
  "clientGetManifestWork key r =
     (let (failed, r1) = issue (GetManifestWork key) r in
      if failed then (Inl IOError, r1)
      else case manifestWorks r1 key of
             None \<Rightarrow> (Inl NotFound, r1)
           | Some mw \<Rightarrow> (Inr mw, r1))"

text \<open>
  ManifestWork has a status subresource: create stores the object with an empty status,
  update leaves the stored status as it is. The store keeps an object in its JSON
  encoding, in which the field \<^verbatim>\<open>manifests\<close> is left out when the slice is empty
  (\<^verbatim>\<open>omitempty\<close>): an empty slice of manifests is stored, and read back, as nil.
\<close>

definition omitEmpty :: "Manifest list option \<Rightarrow> Manifest list option" where
  "omitEmpty manifests = (if manifests = Some [] then None else manifests)"

definition clientCreateManifestWork :: "ManifestWork \<Rightarrow> Reconciler \<Rightarrow> error option \<times> Reconciler" where
  "clientCreateManifestWork mw r =
     (let (failed, r1) = issue (CreateManifestWork mw) r;
          key = (mwNamespace mw, mwName mw) in
      if failed then (Some IOError, r1)
      else case manifestWorks r1 key of
             Some _ \<Rightarrow> (Some AlreadyExists, r1)
           | None \<Rightarrow>
               (None, r1\<lparr>manifestWorks :=
                          (manifestWorks r1)(key \<mapsto> mw\<lparr>Manifests := omitEmpty (Manifests mw),
                                                        Conditions := []\<rparr>)\<rparr>))"

definition clientUpdateManifestWork :: "ManifestWork \<Rightarrow> Reconciler \<Rightarrow> error option \<times> Reconciler" where
  "clientUpdateManifestWork mw r =
     (let (failed, r1) = issue (UpdateManifestWork mw) r;
          key = (mwNamespace mw, mwName mw) in
      if failed then (Some IOError, r1)
      else case manifestWorks r1 key of
             None \<Rightarrow> (Some NotFound, r1)
           | Some stored \<Rightarrow>
               (None, r1\<lparr>manifestWorks :=
                          (manifestWorks r1)(key \<mapsto> mw\<lparr>Manifests := omitEmpty (Manifests mw),
                                                        Conditions := Conditions stored\<rparr>)\<rparr>))"

definition clientDeleteManifestWork :: "ManifestWork \<Rightarrow> Reconciler \<Rightarrow> error option \<times> Reconciler" where
  "clientDeleteManifestWork mw r =
     (let (failed, r1) = issue (DeleteManifestWork mw) r;
          key = (mwNamespace mw, mwName mw) in
      if failed then (Some IOError, r1)
      else case manifestWorks r1 key of
             None \<Rightarrow> (Some NotFound, r1)
           | Some _ \<Rightarrow> (None, r1\<lparr>manifestWorks := (manifestWorks r1)(key := None)\<rparr>))"

definition clientGetPlacementRule ::
  "NamespacedName \<Rightarrow> Reconciler \<Rightarrow> (error + PlacementRule) \<times> Reconciler" where
  "clientGetPlacementRule key r =
     (let (failed, r1) = issue (GetPlacementRule key) r in
      if failed then (Inl IOError, r1)
      else case placementRules r1 key of
             None \<Rightarrow> (Inl NotFound, r1)
           | Some pr \<Rightarrow> (Inr pr, r1))"

definition clientGetAVR ::
  "NamespacedName \<Rightarrow> Reconciler \<Rightarrow> (error + ApplicationVolumeReplication) \<times> Reconciler" where
  "clientGetAVR key r =
     (let (failed, r1) = issue (GetAVR key) r in
      if failed then (Inl IOError, r1)
      else case avrs r1 key of
             None \<Rightarrow> (Inl NotFound, r1)
           | Some avr \<Rightarrow> (Inr avr, r1))"

definition clientListSubscriptions ::
  "string \<Rightarrow> Reconciler \<Rightarrow> (error + Subscription list) \<times> Reconciler" where
  "clientListSubscriptions namespace r =
     (let (failed, r1) = issue (ListSubscriptions namespace) r in
      if failed then (Inl IOError, r1)
      else (Inr (filter (\<lambda>s. subNamespace s = namespace) (subscriptions r1)), r1))"

definition sameSubscription :: "Subscription \<Rightarrow> Subscription \<Rightarrow> bool" where
  "sameSubscription a b = (subNamespace a = subNamespace b \<and> subName a = subName b)"

text \<open>Subscription has a status subresource as well: update keeps the stored status.\<close>

definition clientUpdateSubscription :: "Subscription \<Rightarrow> Reconciler \<Rightarrow> error option \<times> Reconciler" where
  "clientUpdateSubscription sub r =
     (let (failed, r1) = issue (UpdateSubscription sub) r in
      if failed then (Some IOError, r1)
      else if list_ex (sameSubscription sub) (subscriptions r1) then
        (None, r1\<lparr>subscriptions :=
                   map (\<lambda>stored. if sameSubscription sub stored
                                  then sub\<lparr>Phase := Phase stored, Statuses := Statuses stored\<rparr>
                                  else stored) (subscriptions r1)\<rparr>)
      else (Some NotFound, r1))"

text \<open>\<^verbatim>\<open>r.Client.Status().Update\<close>: only the status of the stored object is replaced.\<close>

definition clientStatusUpdateAVR ::
  "ApplicationVolumeReplication \<Rightarrow> Reconciler \<Rightarrow> error option \<times> Reconciler" where
  "clientStatusUpdateAVR avr r =
     (let (failed, r1) = issue (StatusUpdateAVR avr) r;
          key = (avrNamespace avr, avrName avr) in
      if failed then (Some IOError, r1)
      else case avrs r1 key of
             None \<Rightarrow> (Some NotFound, r1)
           | Some stored \<Rightarrow>
               (None, r1\<lparr>avrs := (avrs r1)(key \<mapsto> stored\<lparr>Decisions := Decisions avr\<rparr>)\<rparr>))"


subsection \<open>The work convergence step\<close>

text \<open>\<^verbatim>\<open>errors.IsNotFound\<close>.\<close>

definition IsNotFound :: "error \<Rightarrow> bool" where
  "IsNotFound err = (err = NotFound)"

definition createOrUpdateManifestWork ::
  "ManifestWork \<Rightarrow> string \<Rightarrow> Reconciler \<Rightarrow> error option \<times> Reconciler" where
  "createOrUpdateManifestWork mw managedClusternamespace r =
     (case clientGetManifestWork (managedClusternamespace, mwName mw) r of
        (Inl err, r1) \<Rightarrow>
          if \<not> IsNotFound err then (Some (Wrap ''failed to fetch ManifestWork'' err), r1)
          else clientCreateManifestWork mw r1
      | (Inr foundMW, r1) \<Rightarrow>
          if Manifests foundMW \<noteq> Manifests mw
          then clientUpdateManifestWork (foundMW\<lparr>Manifests := Manifests mw\<rparr>) r1
          else (None, r1))"

definition findManifestWork ::
  "Subscription \<Rightarrow> string \<Rightarrow> string \<Rightarrow> Reconciler \<Rightarrow> (error + ManifestWork option) \<times> Reconciler" where
  "findManifestWork subscription homeCluster mwType r =
     (if homeCluster \<noteq> [] then
        (let mwName = ManifestWorkName (subName subscription) (subNamespace subscription) mwType in
         case clientGetManifestWork (homeCluster, mwName) r of
           (Inl err, r1) \<Rightarrow>
             if IsNotFound err then (Inr None, r1)
             else (Inl (Wrap ''failed to retrieve manifestwork'' err), r1)
         | (Inr mw, r1) \<Rightarrow> (Inr (Some mw), r1))
      else (Inr None, r))"

subsection \<open>Manifest generators\<close>

definition generateManifest :: "Reconciler \<Rightarrow> Object \<Rightarrow> error + Manifest" where
  "generateManifest r obj =
     (case jsonMarshal r obj of
        Inl err \<Rightarrow> Inl (Wrap ''failed to marshal to JSON'' err)
      | Inr objJSON \<Rightarrow> Inr objJSON)"

definition newManifestWork ::
  "string \<Rightarrow> string \<Rightarrow> (string \<rightharpoonup> string) \<Rightarrow> Manifest list option \<Rightarrow> ManifestWork" where
  "newManifestWork name mcNamespace labels manifests =
     \<lparr>mwName = name, mwNamespace = mcNamespace, mwLabels = labels,
      Manifests = manifests, Conditions = []\<rparr>"

definition vrgRoleName :: string where
  "vrgRoleName = ''open-cluster-management:klusterlet-work-sa:agent:volrepgroup-edit''"

definition generateVRGClusterRoleManifest :: "Reconciler \<Rightarrow> error + Manifest" where
  "generateVRGClusterRoleManifest r =
     generateManifest r
       (ClusterRole vrgRoleName
          [([''ramendr.openshift.io''], [''volumereplicationgroups''],
            [''create'', ''get'', ''list'', ''update'', ''delete''])])"

definition generateVRGClusterRoleBindingManifest :: "Reconciler \<Rightarrow> error + Manifest" where
  "generateVRGClusterRoleBindingManifest r =
     generateManifest r
       (ClusterRoleBinding vrgRoleName
          [(''ServiceAccount'', ''klusterlet-work-sa'', ''open-cluster-management-agent'')]
          (''rbac.authorization.k8s.io'', ''ClusterRole'', vrgRoleName))"

definition generateVRGRolesManifestWork :: "Reconciler \<Rightarrow> string \<Rightarrow> error + ManifestWork" where
  "generateVRGRolesManifestWork r namespace =
     (case generateVRGClusterRoleManifest r of
        Inl err \<Rightarrow> Inl err
      | Inr vrgClusterRole \<Rightarrow>
          (case generateVRGClusterRoleBindingManifest r of
             Inl err \<Rightarrow> Inl err
           | Inr vrgClusterRoleBinding \<Rightarrow>
               Inr (newManifestWork ''ramendr-vrg-roles'' namespace Map.empty
                      (Some [vrgClusterRole, vrgClusterRoleBinding]))))"

definition generateVRGManifest ::
  "Reconciler \<Rightarrow> string \<Rightarrow> string \<Rightarrow> string \<Rightarrow> string \<Rightarrow> error + Manifest" where
  "generateVRGManifest r name namespace s3Endpoint s3SecretName =
     generateManifest r
       (VolumeReplicationGroup name namespace
          [(''appclass'', ''gold''), (''environment'', ''dev.AZ1'')]
          ''volume-rep-class'' ''Primary'' s3Endpoint s3SecretName)"

definition generateVRGManifestWork ::
  "Reconciler \<Rightarrow> string \<Rightarrow> string \<Rightarrow> string \<Rightarrow> string \<Rightarrow> string \<Rightarrow> error + ManifestWork" where
  "generateVRGManifestWork r name namespace homeCluster s3Endpoint s3SecretName =
     (case generateVRGManifest r name namespace s3Endpoint s3SecretName of
        Inl err \<Rightarrow> Inl err
      | Inr vrgClientManifest \<Rightarrow>
          Inr (newManifestWork (ManifestWorkName name namespace MWTypeVRG) homeCluster
                 [''app'' \<mapsto> ''VRG''] (Some [vrgClientManifest])))"

text \<open>
  Either every volume record serialises or the whole list is refused. The slice starts
  empty and not nil, so the result is never the nil slice.
\<close>

fun generatePVManifest :: "Reconciler \<Rightarrow> PersistentVolume list \<Rightarrow> Manifest list \<Rightarrow> error + Manifest list" where
  "generatePVManifest r [] manifests = Inr manifests"
| "generatePVManifest r (pv # pvList) manifests =
     (case generateManifest r (PersistentVolumeObject pv) of
        Inl err \<Rightarrow> Inl err
      | Inr pvClientManifest \<Rightarrow> generatePVManifest r pvList (manifests @ [pvClientManifest]))"

definition generatePVManifestWork ::
  "Reconciler \<Rightarrow> string \<Rightarrow> string \<Rightarrow> string \<Rightarrow> PersistentVolume list \<Rightarrow> error + ManifestWork" where
  "generatePVManifestWork r name namespace homeClusterName pvList =
     (case generatePVManifest r pvList [] of
        Inl err \<Rightarrow> Inl err
      | Inr manifests \<Rightarrow>
          Inr (newManifestWork (ManifestWorkName name namespace MWTypePV) homeClusterName
                 [''app'' \<mapsto> ''PV''] (Some manifests)))"

definition createOrUpdateVRGRolesManifestWork :: "string \<Rightarrow> Reconciler \<Rightarrow> error option \<times> Reconciler" where
  "createOrUpdateVRGRolesManifestWork namespace r =
     (case generateVRGRolesManifestWork r namespace of
        Inl err \<Rightarrow> (Some err, r)
      | Inr manifestWork \<Rightarrow> createOrUpdateManifestWork manifestWork namespace r)"

definition createOrUpdateVRGManifestWork ::
  "string \<Rightarrow> string \<Rightarrow> string \<Rightarrow> string \<Rightarrow> string \<Rightarrow> Reconciler \<Rightarrow> error option \<times> Reconciler" where
  "createOrUpdateVRGManifestWork name namespace homeCluster s3Endpoint s3SecretName r =
     (case generateVRGManifestWork r name namespace homeCluster s3Endpoint s3SecretName of
        Inl err \<Rightarrow> (Some err, r)
      | Inr manifestWork \<Rightarrow> createOrUpdateManifestWork manifestWork homeCluster r)"

definition createOrUpdatePVsManifestWork ::
  "string \<Rightarrow> string \<Rightarrow> string \<Rightarrow> PersistentVolume list \<Rightarrow> Reconciler \<Rightarrow> error option \<times> Reconciler" where
  "createOrUpdatePVsManifestWork name namespace homeClusterName pvList r =
     (case generatePVManifestWork r name namespace homeClusterName pvList of
        Inl err \<Rightarrow> (Some err, r)
      | Inr manifestWork \<Rightarrow> createOrUpdateManifestWork manifestWork homeClusterName r)"

subsection \<open>Placement\<close>

text \<open>A Go map read: the zero value when the key is absent.\<close>

definition mapIndex :: "(string \<rightharpoonup> string) \<Rightarrow> string \<Rightarrow> string" where
  "mapIndex m k = (case m k of None \<Rightarrow> [] | Some v \<Rightarrow> v)"

definition filterClusters ::
  "PlacementRule \<Rightarrow> (string \<times> ManagedCluster) list \<Rightarrow> error option" where
  "filterClusters placementRule clmap =
     (if length clmap = 0 then Some (Failure ''no clusters found for placementRule'') else None)"

definition requiredClusterReplicas :: "32 word" where
  "requiredClusterReplicas = 1"

definition getManagedClustersUsingPlacementRule ::
  "Reconciler \<Rightarrow> PlacementRule \<Rightarrow> nat \<Rightarrow> error + (string \<times> ManagedCluster) list" where
  "getManagedClustersUsingPlacementRule r placementRule maxClusterCount =
     (case PlaceByGenericPlacmentFields r placementRule of
        Inl err \<Rightarrow> Inl (Wrap ''failed to get cluster map for placement'' err)
      | Inr clmap \<Rightarrow>
          if (case ClusterReplicas placementRule of
                None \<Rightarrow> False
              | Some replicas \<Rightarrow> replicas \<noteq> requiredClusterReplicas)
          then Inl (Failure ''PlacementRule Required cluster replicas'')
          else case filterClusters placementRule clmap of
                 Some err \<Rightarrow> Inl (Wrap ''failed to filter clusters'' err)
               | None \<Rightarrow>
                   if length clmap \<noteq> maxClusterCount
                   then Inl (Failure ''PlacementRule should have made decisions'')
                   else Inr clmap)"

text \<open>
  The loop that copies the clusters of the map into a slice of length \<open>maxClusterCount\<close>:
  a write past the end of the slice panics.
\<close>

fun fillClusters ::
  "(string \<times> ManagedCluster) list \<Rightarrow> nat \<Rightarrow> ManagedCluster list \<Rightarrow> panic + ManagedCluster list" where
  "fillClusters [] idx clusters = Inr clusters"
| "fillClusters ((k, c) # rest) idx clusters =
     (if idx < length clusters then fillClusters rest (idx + 1) (clusters[idx := c])
      else Inl IndexOutOfRange)"

definition hasStatus :: "(string \<rightharpoonup> SubscriptionPerClusterStatus option) \<Rightarrow> string \<Rightarrow> bool" where
  "hasStatus subStatuses name = (case subStatuses name of Some (Some _) \<Rightarrow> True | _ \<Rightarrow> False)"

definition extractHomeClusterAndPeerCluster ::
  "Reconciler \<Rightarrow> Subscription \<Rightarrow> PlacementRule \<Rightarrow> panic + (error + string \<times> string)" where
  "extractHomeClusterAndPeerCluster r subscription placementRule =
     (case Statuses subscription of
        None \<Rightarrow> Inr (Inl (Failure ''invalid subscription Status.Statuses''))
      | Some subStatuses \<Rightarrow>
          (let maxClusterCount = 2 in
           case getManagedClustersUsingPlacementRule r placementRule maxClusterCount of
             Inl err \<Rightarrow> Inr (Inl err)
           | Inr clmap \<Rightarrow>
               (case fillClusters clmap 0 (replicate maxClusterCount \<lparr>mcName = []\<rparr>) of
                  Inl p \<Rightarrow> Inl p
                | Inr clusters \<Rightarrow>
                    (let d1 = clusters ! 0; d2 = clusters ! 1 in
                     if hasStatus subStatuses (mcName d1)
                     then Inr (Inr (mcName d1, mcName d2))
                     else if hasStatus subStatuses (mcName d2)
                     then Inr (Inr (mcName d2, mcName d1))
                     else Inr (Inl (Failure ''mismatch between placementRule decisions and subscription statuses''))))))"

text \<open>
  \<^verbatim>\<open>selectPlacementDecision\<close> also writes the defaulted namespace into the placement
  reference of the subscription it holds in memory; nothing reads that copy afterwards.
\<close>

definition selectPlacementDecision ::
  "Subscription \<Rightarrow> Reconciler \<Rightarrow> panic + ((error + string \<times> string) \<times> Reconciler)" where
  "selectPlacementDecision subscription r =
     (if Phase subscription \<noteq> SubscriptionPropagated \<or> Statuses subscription = None
      then Inr (Inl (Failure ''subscription not ready''), r)
      else case subPlacement subscription of
             None \<Rightarrow> Inr (Inl (Failure ''placement not set for subscription''), r)
           | Some pl \<Rightarrow>
               (case PlacementRef pl of
                  None \<Rightarrow> Inr (Inl (Failure ''placement not set for subscription''), r)
                | Some plRef \<Rightarrow>
                    (let namespace = (if refNamespace plRef = [] then subNamespace subscription
                                      else refNamespace plRef) in
                     case clientGetPlacementRule (namespace, refName plRef) r of
                       (Inl err, r1) \<Rightarrow>
                         Inr (Inl (Failure ''failed to retrieve placementRule using placementRef''), r1)
                     | (Inr placementRule, r1) \<Rightarrow>
                         (case extractHomeClusterAndPeerCluster r1 subscription placementRule of
                            Inl p \<Rightarrow> Inl p
                          | Inr res \<Rightarrow> Inr (res, r1)))))"


subsection \<open>The failover sequence\<close>

text \<open>
  \<^verbatim>\<open>strings.EqualFold\<close>, on the two words it is called with here (\<^verbatim>\<open>protected\<close> and
  \<^verbatim>\<open>true\<close>): none of their letters has a case variant outside ASCII, so folding the ASCII
  letters decides it.
\<close>

definition toLowerASCII :: "char \<Rightarrow> char" where
  "toLowerASCII c =
     (let n = (of_char c :: nat) in if 65 \<le> n \<and> n \<le> 90 then char_of (n + 32) else c)"

definition EqualFold :: "string \<Rightarrow> string \<Rightarrow> bool" where
  "EqualFold s t = (map toLowerASCII s = map toLowerASCII t)"

definition isSubsriptionPausedForDR :: "(string \<rightharpoonup> string) option \<Rightarrow> bool" where
  "isSubsriptionPausedForDR labels =
     (case labels of
        None \<Rightarrow> False
      | Some m \<Rightarrow>
          mapIndex m RamenDRLabelName \<noteq> [] \<and>
          EqualFold (mapIndex m RamenDRLabelName) ''protected'' \<and>
          mapIndex m LabelSubscriptionPause \<noteq> [] \<and>
          EqualFold (mapIndex m LabelSubscriptionPause) ''true'')"

definition findNextHomeCluster :: "ApplicationVolumeReplication \<Rightarrow> Subscription \<Rightarrow> string" where
  "findNextHomeCluster avr subscription = mapIndex (FailoverClusters avr) (subName subscription)"

text \<open>Indexing the decision map of the status: a nil map has no entry.\<close>

definition lookupDecision ::
  "ApplicationVolumeReplication \<Rightarrow> string \<Rightarrow> SubscriptionPlacementDecision option" where
  "lookupDecision avr name =
     (case Decisions avr of None \<Rightarrow> None | Some decisions \<Rightarrow> map_of decisions name)"

definition deleteExistingManfiestWork ::
  "ApplicationVolumeReplication \<Rightarrow> Subscription \<Rightarrow> Reconciler \<Rightarrow> error option \<times> Reconciler" where
  "deleteExistingManfiestWork avr subscription r =
     (case lookupDecision avr (subName subscription) of
        Some d \<Rightarrow>
          (let vrgMWName = ManifestWorkName (subName subscription) (subNamespace subscription) MWTypeVRG in
           case clientGetManifestWork (HomeCluster d, vrgMWName) r of
             (Inl err, r1) \<Rightarrow>
               if IsNotFound err then (None, r1)
               else (Some (Wrap ''failed to retrieve manifestWork'' err), r1)
           | (Inr mw, r1) \<Rightarrow> clientDeleteManifestWork mw r1)
      | None \<Rightarrow> (None, r))"

definition listPVsFromS3Store ::
  "ApplicationVolumeReplication \<Rightarrow> Subscription \<Rightarrow> Reconciler \<Rightarrow> error + PersistentVolume list" where
  "listPVsFromS3Store avr subscription r =
     (let s3SecretLookupKey = (avrNamespace avr, S3SecretName avr);
          s3Bucket = constructBucketName r (subNamespace subscription) (subName subscription) in
      S3 r (S3Endpoint avr) s3SecretLookupKey (avrName avr) s3Bucket)"

definition restorePVFromBackup ::
  "ApplicationVolumeReplication \<Rightarrow> Subscription \<Rightarrow> string \<Rightarrow> Reconciler \<Rightarrow> error option \<times> Reconciler" where
  "restorePVFromBackup avr subscription homeCluster r =
     (case listPVsFromS3Store avr subscription r of
        Inl err \<Rightarrow> (Some (Wrap ''failed to retrieve PVs from S3 store'' err), r)
      | Inr pvList \<Rightarrow>
          if length pvList = 0 then (None, r)
          else createOrUpdatePVsManifestWork (subName subscription) (subNamespace subscription)
                 homeCluster pvList r)"

definition processPausedSubscription ::
  "ApplicationVolumeReplication \<Rightarrow> Subscription \<Rightarrow> Reconciler \<Rightarrow>
     (error + string \<times> ManifestWork option) \<times> Reconciler" where
  "processPausedSubscription avr subscription r =
     (let newHomeCluster = findNextHomeCluster avr subscription in
      if newHomeCluster = [] then (Inl (Failure ''failed to find new home cluster''), r)
      else case findManifestWork subscription newHomeCluster MWTypePV r of
             (Inl err, r1) \<Rightarrow> (Inl (Wrap ''failed to get PV ManifestWork'' err), r1)
           | (Inr (Some pvMW), r1) \<Rightarrow> (Inr (newHomeCluster, Some pvMW), r1)
           | (Inr None, r1) \<Rightarrow>
               (case deleteExistingManfiestWork avr subscription r1 of
                  (Some err, r2) \<Rightarrow> (Inl (Wrap ''failed to delete existing ManifestWork'' err), r2)
                | (None, r2) \<Rightarrow>
                    (case restorePVFromBackup avr subscription newHomeCluster r2 of
                       (Some err, r3) \<Rightarrow> (Inl (Wrap ''failed to restore PVs from Backups'' err), r3)
                     | (None, r3) \<Rightarrow> (Inr (newHomeCluster, None), r3))))"

text \<open>
  \<^verbatim>\<open>waitForManifest\<close> evaluates the conditions of the ManifestWork it holds in memory; the
  reordered copy is dropped when the call returns.
\<close>

definition waitForManifest ::
  "Subscription \<Rightarrow> string \<Rightarrow> ManifestWork option \<Rightarrow> Reconciler \<Rightarrow> panic + (bool \<times> Reconciler)" where
  "waitForManifest subscription clusterName pvMW r =
     (let wait = True;
          (lookup, r1) = (case pvMW of
                            None \<Rightarrow> findManifestWork subscription clusterName MWTypePV r
                          | Some _ \<Rightarrow> (Inr pvMW, r)) in
      case lookup of
        Inl err \<Rightarrow> Inr (wait, r1)
      | Inr None \<Rightarrow> Inr (\<not> wait, r1)
      | Inr (Some found) \<Rightarrow>
          (case IsManifestInAppliedState found of
             Inl p \<Rightarrow> Inl p
           | Inr (applied, _) \<Rightarrow> if \<not> applied then Inr (wait, r1) else Inr (\<not> wait, r1)))"

text \<open>
  \<^verbatim>\<open>unpauseSubscription\<close> returns the error, the subscription as the call leaves it in
  memory, and the reconciler.
\<close>

definition unpauseSubscription ::
  "Subscription \<Rightarrow> Reconciler \<Rightarrow> error option \<times> Subscription \<times> Reconciler" where
  "unpauseSubscription subscription r =
     (case subLabels subscription of
        None \<Rightarrow> (Some (Failure ''failed to find labels for subscription''), subscription, r)
      | Some labels \<Rightarrow>
          (let subscription' = subscription\<lparr>subLabels := Some (labels(LabelSubscriptionPause \<mapsto> ''false''))\<rparr>;
               (err, r1) = clientUpdateSubscription subscription' r
           in (err, subscription', r1)))"

subsection \<open>Processing one subscription\<close>

definition vrgManifestWorkAlreadyExists ::
  "ApplicationVolumeReplication \<Rightarrow> Subscription \<Rightarrow> Reconciler \<Rightarrow> (error + bool) \<times> Reconciler" where
  "vrgManifestWorkAlreadyExists avr subscription r =
     (case Decisions avr of
        None \<Rightarrow> (Inr False, r)
      | Some decisions \<Rightarrow>
          (case map_of decisions (subName subscription) of
             Some d \<Rightarrow>
               (case findManifestWork subscription (HomeCluster d) MWTypeVRG r of
                  (Inl err, r1) \<Rightarrow> (Inl err, r1)
                | (Inr (Some mw), r1) \<Rightarrow> (Inr True, r1)
                | (Inr None, r1) \<Rightarrow> (Inr False, r1))
           | None \<Rightarrow> (Inr False, r)))"

definition processUnpausedSubscription ::
  "ApplicationVolumeReplication \<Rightarrow> Subscription \<Rightarrow> Reconciler \<Rightarrow>
     panic + ((error + SubscriptionPlacementDecision) \<times> Reconciler)" where
  "processUnpausedSubscription avr subscription r =
     (case selectPlacementDecision subscription r of
        Inl p \<Rightarrow> Inl p
      | Inr (Inl err, r1) \<Rightarrow> Inr (Inl err, r1)
      | Inr (Inr (homeCluster, peerCluster), r1) \<Rightarrow>
          (case createOrUpdateVRGRolesManifestWork homeCluster r1 of
             (Some err, r2) \<Rightarrow> Inr (Inl err, r2)
           | (None, r2) \<Rightarrow>
               (case createOrUpdateVRGManifestWork (subName subscription) (subNamespace subscription)
                       homeCluster (S3Endpoint avr) (S3SecretName avr) r2 of
                  (Some err, r3) \<Rightarrow> Inr (Inl err, r3)
                | (None, r3) \<Rightarrow>
                    Inr (Inr \<lparr>HomeCluster = homeCluster, PeerCluster = peerCluster\<rparr>, r3))))"

text \<open>
  \<^verbatim>\<open>processSubscription\<close> returns the decision (\<open>None\<close> for the nil pointer), the requeue
  flag and the reconciler. The subscription it unpauses in memory is not read again by
  its caller.
\<close>

definition processSubscription ::
  "ApplicationVolumeReplication \<Rightarrow> Subscription \<Rightarrow> Reconciler \<Rightarrow>
     panic + (SubscriptionPlacementDecision option \<times> bool \<times> Reconciler)" where
  "processSubscription avr subscription r =
     (let requeue = True in
      if isSubsriptionPausedForDR (subLabels subscription) then
        (case processPausedSubscription avr subscription r of
           (Inl err, r1) \<Rightarrow> Inr (None, requeue, r1)
         | (Inr (newHomeCluster, pvMW), r1) \<Rightarrow>
             (case waitForManifest subscription newHomeCluster pvMW r1 of
                Inl p \<Rightarrow> Inl p
              | Inr (wait, r2) \<Rightarrow>
                  if wait then Inr (None, requeue, r2)
                  else (case unpauseSubscription subscription r2 of
                          (Some err, _, r3) \<Rightarrow> Inr (None, requeue, r3)
                        | (None, _, r3) \<Rightarrow> Inr (None, requeue, r3))))
      else
        (case vrgManifestWorkAlreadyExists avr subscription r of
           (Inl err, r1) \<Rightarrow> Inr (None, requeue, r1)
         | (Inr exists, r1) \<Rightarrow>
             if exists then Inr (None, \<not> requeue, r1)
             else (case processUnpausedSubscription avr subscription r1 of
                     Inl p \<Rightarrow> Inl p
                   | Inr (Inl err, r2) \<Rightarrow> Inr (None, requeue, r2)
                   | Inr (Inr placementDecision, r2) \<Rightarrow> Inr (Some placementDecision, \<not> requeue, r2))))"

subsection \<open>The reconcile pass\<close>

text \<open>The test that skips a subscription of a managed cluster or a local one.\<close>

definition isLocalSubscription :: "Subscription \<Rightarrow> bool" where
  "isLocalSubscription subscription =
     (Phase subscription = SubscriptionSubscribed \<or>
      (case subPlacement subscription of
         None \<Rightarrow> False
       | Some pl \<Rightarrow> (case Local pl of None \<Rightarrow> False | Some local \<Rightarrow> local)))"

text \<open>
  The loop of \<^verbatim>\<open>processSubscriptions\<close>, with its three variables: the decision map, the
  requeue flag and the reconciler.
\<close>

fun processSubscriptionsLoop ::
  "ApplicationVolumeReplication \<Rightarrow> Subscription list \<Rightarrow>
     SubscriptionPlacementDecisionMap \<times> bool \<times> Reconciler \<Rightarrow>
     panic + (SubscriptionPlacementDecisionMap \<times> bool \<times> Reconciler)" where
  "processSubscriptionsLoop avr [] acc = Inr acc"
| "processSubscriptionsLoop avr (subscription # items) (placementDecisions, requeue, r) =
     (if isLocalSubscription subscription
      then processSubscriptionsLoop avr items (placementDecisions, requeue, r)
      else case processSubscription avr subscription r of
             Inl p \<Rightarrow> Inl p
           | Inr (placementDecision, needRequeue, r1) \<Rightarrow>
               if needRequeue
               then processSubscriptionsLoop avr items (placementDecisions, True, r1)
               else (case placementDecision of
                       Some d \<Rightarrow>
                         processSubscriptionsLoop avr items
                           (AList.update (subName subscription) d placementDecisions, requeue, r1)
                     | None \<Rightarrow>
                         processSubscriptionsLoop avr items (placementDecisions, requeue, r1)))"

definition processSubscriptions ::
  "ApplicationVolumeReplication \<Rightarrow> Subscription list \<Rightarrow> Reconciler \<Rightarrow>
     panic + (SubscriptionPlacementDecisionMap \<times> bool \<times> Reconciler)" where
  "processSubscriptions avr subscriptionList r =
     processSubscriptionsLoop avr subscriptionList ([], False, r)"

text \<open>
  \<^verbatim>\<open>updateAVRStatus\<close> returns the error, the ApplicationVolumeReplication as the call leaves
  it in memory, and the reconciler.
\<close>

definition updateAVRStatus ::
  "ApplicationVolumeReplication \<Rightarrow> SubscriptionPlacementDecisionMap \<Rightarrow> Reconciler \<Rightarrow>
     error option \<times> ApplicationVolumeReplication \<times> Reconciler" where
  "updateAVRStatus avr placementDecisions r =
     (let avr' = avr\<lparr>Decisions := Some placementDecisions\<rparr> in
      case clientStatusUpdateAVR avr' r of
        (Some err, r1) \<Rightarrow> (Some (Wrap ''failed to update AVR status'' err), avr', r1)
      | (None, r1) \<Rightarrow> (None, avr', r1))"

text \<open>The \<^verbatim>\<open>ctrl.Result\<close> of a pass is its \<open>Requeue\<close> flag.\<close>

definition Reconcile ::
  "NamespacedName \<Rightarrow> Reconciler \<Rightarrow> panic + ((bool \<times> error option) \<times> Reconciler)" where
  "Reconcile req r =
     (case clientGetAVR req r of
        (Inl err, r1) \<Rightarrow>
          if IsNotFound err then Inr ((False, None), r1)
          else Inr ((False, Some (Wrap ''failed to get AVR object'' err)), r1)
      | (Inr avr, r1) \<Rightarrow>
          (case clientListSubscriptions (avrNamespace avr) r1 of
             (Inl err, r2) \<Rightarrow>
               if \<not> IsNotFound err then Inr ((True, None), r2)
               else Inr ((False, Some (Wrap ''failed to list subscriptions'' err)), r2)
           | (Inr subscriptionList, r2) \<Rightarrow>
               (case processSubscriptions avr subscriptionList r2 of
                  Inl p \<Rightarrow> Inl p
                | Inr (placementDecisions, requeue, r3) \<Rightarrow>
                    if length placementDecisions = 0 then Inr ((requeue, None), r3)
                    else (case updateAVRStatus avr placementDecisions r3 of
                            (Some err, _, r4) \<Rightarrow> Inr ((True, None), r4)
                          | (None, _, r4) \<Rightarrow> Inr ((requeue, None), r4)))))"


section \<open>Notions used in the statements\<close>

text \<open>The creates and updates of ManifestWorks among a list of client calls.\<close>

fun isBundleWrite :: "Call \<Rightarrow> bool" where
  "isBundleWrite (CreateManifestWork mw) = True"
| "isBundleWrite (UpdateManifestWork mw) = True"
| "isBundleWrite c = False"

definition bundleWrites :: "Call list \<Rightarrow> Call list" where
  "bundleWrites cs = filter isBundleWrite cs"

text \<open>The status writes among a list of client calls.\<close>

fun isStatusWrite :: "Call \<Rightarrow> bool" where
  "isStatusWrite (StatusUpdateAVR avr) = True"
| "isStatusWrite c = False"

definition statusWrites :: "Call list \<Rightarrow> Call list" where
  "statusWrites cs = filter isStatusWrite cs"

text \<open>
  What a pass must leave alone until its status update: the stored DR intents and the
  status writes issued so far.
\<close>

definition statusView ::
  "Reconciler \<Rightarrow> (NamespacedName \<rightharpoonup> ApplicationVolumeReplication) \<times> Call list" where
  "statusView r = (avrs r, statusWrites (calls r))"

text \<open>
  The outcomes of the subscriptions of one pass, in the order of the list: for every
  subscription that is not skipped, the result of \<^verbatim>\<open>processSubscription\<close> on the reconciler
  as the subscriptions before it left it.
\<close>

fun outcomes ::
  "ApplicationVolumeReplication \<Rightarrow> Subscription list \<Rightarrow> Reconciler \<Rightarrow>
     (Subscription \<times> SubscriptionPlacementDecision option \<times> bool) list" where
  "outcomes avr [] r = []"
| "outcomes avr (subscription # items) r =
     (if isLocalSubscription subscription then outcomes avr items r
      else case processSubscription avr subscription r of
             Inl p \<Rightarrow> []
           | Inr (placementDecision, needRequeue, r1) \<Rightarrow>
               (subscription, placementDecision, needRequeue) # outcomes avr items r1)"

text \<open>
  What the specification says the evaluator computes, the timestamp of a condition read as
  its instant: the list is not empty, a condition of type Applied with status true stands
  at the maximum instant, and no condition of type Degraded with status true stands there.
\<close>

definition instant :: "Condition \<Rightarrow> int" where
  "instant c = wallClock (LastTransitionTime c)"

definition appliedAtMostRecent :: "Condition list \<Rightarrow> bool" where
  "appliedAtMostRecent cs =
     (cs \<noteq> [] \<and>
      (\<exists>c\<in>set cs. instant c = Max (instant ` set cs) \<and>
                   Type c = WorkApplied \<and> Status c = ConditionTrue) \<and>
      \<not> (\<exists>c\<in>set cs. instant c = Max (instant ` set cs) \<and>
                   Type c = WorkDegraded \<and> Status c = ConditionTrue))"

text \<open>
  \<^verbatim>\<open>Before\<close> orders the timestamps of a list by their instants. It does when none of them
  carries a monotonic reading.
\<close>

definition orderedByInstant :: "Condition list \<Rightarrow> bool" where
  "orderedByInstant cs =
     (\<forall>c\<in>set cs. \<forall>c'\<in>set cs.
        Before (LastTransitionTime c) (LastTransitionTime c') = (instant c < instant c'))"

text \<open>
  The timestamps at the maximum instant of a list are one value: they agree in location
  and monotonic reading as well. Timestamps decoded from the API server do (the decoder
  sets the local location and no monotonic reading).
\<close>

definition oneValueAtMaximum :: "Condition list \<Rightarrow> bool" where
  "oneValueAtMaximum cs =
     (\<forall>c\<in>set cs. \<forall>c'\<in>set cs.
        instant c = Max (instant ` set cs) \<and> instant c' = Max (instant ` set cs) \<longrightarrow>
        LastTransitionTime c = LastTransitionTime c')"

text \<open>A condition list sorted by descending instant.\<close>

abbreviation descTime :: "Condition list \<Rightarrow> bool" where
  "descTime \<equiv> sorted_wrt (\<lambda>a b. instant b \<le> instant a)"


text \<open>The subscription has a non-nil status entry for a cluster name.\<close>

definition statusEntry :: "Subscription \<Rightarrow> string \<Rightarrow> bool" where
  "statusEntry subscription name =
     (case Statuses subscription of None \<Rightarrow> False | Some subStatuses \<Rightarrow> hasStatus subStatuses name)"

section \<open>Example inputs\<close>

text \<open>
  A hub with one DR intent \<^verbatim>\<open>avr1\<close> in namespace \<^verbatim>\<open>ns1\<close>, one subscription \<^verbatim>\<open>app1\<close> that is
  protected and paused, a placement rule that resolves to the clusters \<^verbatim>\<open>east\<close> and
  \<^verbatim>\<open>west\<close>, a failover target \<^verbatim>\<open>west\<close> for \<^verbatim>\<open>app1\<close>, an empty backup store and no fault.
  The other inputs are variations of it.
\<close>

text \<open>A timestamp as the decoder builds it: location 0 (local), no monotonic reading.\<close>

definition decoded :: "int \<Rightarrow> Time" where
  "decoded t = \<lparr>wallClock = t, monotonicReading = None, loc = 0\<rparr>"

definition applied5 :: Condition where
  "applied5 = \<lparr>Type = ''Applied'', Status = ''True'', LastTransitionTime = decoded 5,
                Reason = [], Message = []\<rparr>"

definition degraded5 :: Condition where
  "degraded5 = \<lparr>Type = ''Degraded'', Status = ''True'', LastTransitionTime = decoded 5,
                 Reason = [], Message = []\<rparr>"

definition degraded3 :: Condition where
  "degraded3 = \<lparr>Type = ''Degraded'', Status = ''True'', LastTransitionTime = decoded 3,
                 Reason = [], Message = []\<rparr>"

text \<open>
  The instant 5 in another location, and two readings taken in this process around a step
  back of the wall clock: the later reading (monotonic 2) shows the earlier instant 3.
\<close>

definition applied5utc :: Condition where
  "applied5utc = applied5\<lparr>LastTransitionTime := \<lparr>wallClock = 5, monotonicReading = None, loc = 1\<rparr>\<rparr>"

definition appliedBeforeStep :: Condition where
  "appliedBeforeStep =
     applied5\<lparr>LastTransitionTime := \<lparr>wallClock = 5, monotonicReading = Some 1, loc = 0\<rparr>\<rparr>"

definition degradedAfterStep :: Condition where
  "degradedAfterStep =
     degraded3\<lparr>LastTransitionTime := \<lparr>wallClock = 3, monotonicReading = Some 2, loc = 0\<rparr>\<rparr>"

definition restoreWork :: "Condition list \<Rightarrow> ManifestWork" where
  "restoreWork conditions =
     \<lparr>mwName = ''app1-ns1-pv-mw'', mwNamespace = ''west'', mwLabels = [''app'' \<mapsto> ''PV''],
      Manifests = Some [''pv1''], Conditions = conditions\<rparr>"

definition eastWest :: "(string \<times> ManagedCluster) list" where
  "eastWest = [(''east'', \<lparr>mcName = ''east''\<rparr>), (''west'', \<lparr>mcName = ''west''\<rparr>)]"

definition placement1 :: PlacementRule where
  "placement1 = \<lparr>plName = ''pr1'', plNamespace = ''ns1'', ClusterReplicas = Some 1\<rparr>"

definition app1 :: Subscription where
  "app1 = \<lparr>subName = ''app1'', subNamespace = ''ns1'',
            subLabels = Some [''ramendr'' \<mapsto> ''protected'', ''subscription-pause'' \<mapsto> ''true''],
            subPlacement = Some \<lparr>Local = None, PlacementRef = Some \<lparr>refName = ''pr1'', refNamespace = []\<rparr>\<rparr>,
            Phase = ''Propagated'',
            Statuses = Some [''east'' \<mapsto> Some ''Subscribed'']\<rparr>"

definition avr1 :: ApplicationVolumeReplication where
  "avr1 = \<lparr>avrName = ''avr1'', avrNamespace = ''ns1'', FailoverClusters = [''app1'' \<mapsto> ''west''],
            S3Endpoint = ''s3.example'', S3SecretName = ''s3secret'', Decisions = None\<rparr>"

definition hub :: Reconciler where
  "hub = \<lparr>manifestWorks = Map.empty,
           placementRules = [(''ns1'', ''pr1'') \<mapsto> placement1],
           subscriptions = [app1],
           avrs = [(''ns1'', ''avr1'') \<mapsto> avr1],
           calls = [],
           faults = [],
           S3 = (\<lambda>endpoint secret tag bucket. Inr []),
           PlaceByGenericPlacmentFields = (\<lambda>placementRule. Inr eastWest),
           constructBucketName = (\<lambda>namespace name. namespace @ ''-'' @ name),
           jsonMarshal = (\<lambda>obj. Inr ''{}'')\<rparr>"

definition vrgWork :: ManifestWork where
  "vrgWork = \<lparr>mwName = ''app1-ns1-vrg-mw'', mwNamespace = ''east'', mwLabels = [''app'' \<mapsto> ''VRG''],
      Manifests = Some [''vrg''], Conditions = []\<rparr>"

text \<open>The volume-restore ManifestWork for no volume: its slice of manifests is empty, not nil.\<close>

definition emptyRestoreWork :: ManifestWork where
  "emptyRestoreWork =
     \<lparr>mwName = ''app1-ns1-pv-mw'', mwNamespace = ''west'', mwLabels = [''app'' \<mapsto> ''PV''],
      Manifests = Some [], Conditions = []\<rparr>"

definition unpaused :: "string \<Rightarrow> Subscription" where
  "unpaused name = app1\<lparr>subName := name, subLabels := None\<rparr>"

definition eastDecision :: SubscriptionPlacementDecision where
  "eastDecision = \<lparr>HomeCluster = ''east'', PeerCluster = ''west''\<rparr>"

definition threeApps :: "Subscription list" where
  "threeApps = [unpaused ''app1'', unpaused ''app2'',
                (unpaused ''app4'')\<lparr>Phase := ''Subscribed''\<rparr>, unpaused ''app3'']"

definition hubFailingSixthCall :: Reconciler where
  "hubFailingSixthCall = hub\<lparr>faults := [False, False, False, False, False, True]\<rparr>"

definition hubRestorePending :: Reconciler where
  "hubRestorePending =
     hub\<lparr>manifestWorks := [(''west'', ''app1-ns1-pv-mw'') \<mapsto> restoreWork [applied5, degraded5]]\<rparr>"

definition avrAfterEast :: ApplicationVolumeReplication where
  "avrAfterEast = avr1\<lparr>Decisions := Some [(''app1'', eastDecision)]\<rparr>"

definition hubEast :: Reconciler where
  "hubEast = hub\<lparr>manifestWorks := [(''east'', ''app1-ns1-vrg-mw'') \<mapsto> vrgWork]\<rparr>"

definition hubSecondReadFails :: Reconciler where
  "hubSecondReadFails = hub\<lparr>faults := [False, True]\<rparr>"

definition hubStatusWriteFails :: Reconciler where
  "hubStatusWriteFails =
     hub\<lparr>subscriptions := [unpaused ''app1''],
          faults := [False, False, False, False, False, False, False, True]\<rparr>"

section \<open>Properties\<close>

subsection \<open>The condition evaluator\<close>

text \<open>
  What \<^verbatim>\<open>sort.Slice\<close> leaves for the comparator used here: a permutation of the input
  in which no condition is \<^verbatim>\<open>Before\<close> the one that follows it, which sorting again leaves
  as it is.
\<close>

lemma mset_insertionStep: "mset (insertionStep lessFn p x) = add_mset x (mset p)"
proof -
  have "mset (takeWhile (lessFn x) (rev p)) + mset (dropWhile (lessFn x) (rev p)) = mset (rev p)"
    by (simp only: mset_append [symmetric] takeWhile_dropWhile_id)
  then have "mset (dropWhile (lessFn x) (rev p)) + mset (takeWhile (lessFn x) (rev p)) = mset p"
    by (simp add: add.commute)
  then show ?thesis by (simp add: insertionStep_def)
qed

lemma mset_foldl_insertionStep:
  "mset (foldl (insertionStep lessFn) acc xs) = mset acc + mset xs"
  by (induction xs arbitrary: acc) (simp_all add: mset_insertionStep)

lemma mset_sort_Slice: "mset (sort_Slice lessFn xs) = mset xs"
  by (simp add: sort_Slice_def mset_foldl_insertionStep)










text \<open>Where \<^verbatim>\<open>Before\<close> orders by instants, the sorted slice is in descending order of instants.\<close>

lemma desc_insertionStep:
  assumes "descTime p" and "orderedByInstant (x # p)"
  shows "descTime (insertionStep moreRecent p x)"
proof -
  let ?A = "rev (dropWhile (moreRecent x) (rev p))"
  let ?B = "rev (takeWhile (moreRecent x) (rev p))"
  have mr: "\<And>y. y \<in> set p \<Longrightarrow> moreRecent x y = (instant y < instant x)"
    using assms(2) by (simp add: orderedByInstant_def moreRecent_def)
  have p: "p = ?A @ ?B"
    by (metis rev_append rev_rev_ident takeWhile_dropWhile_id)
  have sp: "descTime (?A @ ?B)" using assms(1) p by simp
  have sub: "set ?A \<subseteq> set p" "set ?B \<subseteq> set p"
    by (auto dest: set_takeWhileD set_dropWhileD)
  have B: "\<forall>b\<in>set ?B. instant b \<le> instant x"
  proof
    fix b assume b: "b \<in> set ?B"
    then have "moreRecent x b" by (auto dest!: set_takeWhileD)
    with mr [of b] b sub show "instant b \<le> instant x" by auto
  qed
  have A: "\<forall>a\<in>set ?A. instant x \<le> instant a"
  proof (cases "dropWhile (moreRecent x) (rev p)")
    case Nil
    then have e: "set ?A = {}" by simp
    show ?thesis unfolding e by blast
  next
    case (Cons y ys)
    have y: "\<not> moreRecent x y" using Cons hd_dropWhile[of "moreRecent x" "rev p"] by auto
    have yA: "y \<in> set ?A" using Cons by simp
    with sub have "y \<in> set p" by blast
    with mr [of y] y have le: "instant x \<le> instant y" by simp
    have "?A = rev ys @ [y]" using Cons by simp
    with sp have "descTime (rev ys @ [y])" by (simp add: sorted_wrt_append)
    then have "\<forall>a\<in>set (rev ys). instant y \<le> instant a"
      by (simp add: sorted_wrt_append)
    with le Cons show ?thesis by auto
  qed
  from sp A B show ?thesis
    by (auto simp: insertionStep_def sorted_wrt_append)
qed

lemma orderedByInstant_subset:
  "orderedByInstant xs \<Longrightarrow> set ys \<subseteq> set xs \<Longrightarrow> orderedByInstant ys"
  by (auto simp: orderedByInstant_def)

lemma desc_foldl:
  "descTime acc \<Longrightarrow> orderedByInstant (acc @ xs) \<Longrightarrow>
   descTime (foldl (insertionStep moreRecent) acc xs)"
proof (induction xs arbitrary: acc)
  case Nil
  then show ?case by simp
next
  case (Cons x xs)
  have o1: "orderedByInstant (x # acc)"
    using Cons.prems(2) by (rule orderedByInstant_subset) auto
  have d: "descTime (insertionStep moreRecent acc x)"
    using Cons.prems(1) o1 by (rule desc_insertionStep)
  have "set (insertionStep moreRecent acc x) = set (x # acc)"
    using mset_insertionStep [of moreRecent acc x] by (metis mset.simps(2) set_mset_mset)
  then have o2: "orderedByInstant (insertionStep moreRecent acc x @ xs)"
    using Cons.prems(2) by (intro orderedByInstant_subset [OF Cons.prems(2)]) auto
  from Cons.IH [OF d o2] show ?case by simp
qed

lemma desc_sort_Slice: "orderedByInstant xs \<Longrightarrow> descTime (sort_Slice moreRecent xs)"
  using desc_foldl [of "[]" xs] by (simp add: sort_Slice_def)

lemma recent_of_sorted:
  assumes "descTime (c0 # ys)" and "oneValueAtMaximum (c0 # ys)"
  shows "set (takeWhile (\<lambda>c. LastTransitionTime c = LastTransitionTime c0) (c0 # ys))
         = {c \<in> set (c0 # ys). instant c = Max (instant ` set (c0 # ys))}"
proof -
  let ?E = "\<lambda>c. LastTransitionTime c = LastTransitionTime c0"
  let ?P = "\<lambda>c. instant c = instant c0"
  have mx: "Max (instant ` set (c0 # ys)) = instant c0"
    using assms(1) by (intro Max_eqI) auto
  have same: "\<And>c. c \<in> set (c0 # ys) \<Longrightarrow> ?E c = ?P c"
  proof -
    fix c assume c: "c \<in> set (c0 # ys)"
    have c0: "c0 \<in> set (c0 # ys)" by simp
    show "?E c = ?P c"
    proof
      assume "?E c" then show "?P c" by (simp add: instant_def)
    next
      assume "?P c"
      then have "instant c = Max (instant ` set (c0 # ys)) \<and> instant c0 = Max (instant ` set (c0 # ys))"
        using mx by simp
      with assms(2) c c0 show "?E c" unfolding oneValueAtMaximum_def by blast
    qed
  qed
  have tw: "takeWhile ?E (c0 # ys) = takeWhile ?P (c0 # ys)"
    by (rule takeWhile_cong) (simp_all add: same del: set_simps)
  have "\<And>x. x \<in> set (dropWhile ?P (c0 # ys)) \<Longrightarrow> \<not> ?P x"
  proof -
    fix x assume x: "x \<in> set (dropWhile ?P (c0 # ys))"
    show "\<not> ?P x"
    proof (cases "dropWhile ?P (c0 # ys)")
      case Nil
      from x have "x \<in> set []" unfolding Nil .
      then show ?thesis by simp
    next
      case (Cons y zs)
      have ny: "\<not> ?P y" using Cons hd_dropWhile[of ?P "c0 # ys"] by auto
      have "c0 # ys = takeWhile ?P (c0 # ys) @ y # zs"
        using Cons takeWhile_dropWhile_id[of ?P "c0 # ys"] by simp
      then have d: "descTime (takeWhile ?P (c0 # ys) @ y # zs)" using assms(1) by simp
      have "c0 \<in> set (takeWhile ?P (c0 # ys))" by simp
      with d have "instant y \<le> instant c0"
        by (auto simp: sorted_wrt_append)
      with ny have lt: "instant y < instant c0" by simp
      from d have "\<forall>z\<in>set zs. instant z \<le> instant y"
        by (auto simp: sorted_wrt_append)
      with lt x Cons show ?thesis by auto
    qed
  qed
  then have "takeWhile ?P (c0 # ys) = filter ?P (c0 # ys)"
    by (rule takeWhile_eq_filter)
  with tw have "takeWhile ?E (c0 # ys) = filter ?P (c0 # ys)" by simp
  then show ?thesis using mx by auto
qed

lemma scanConditions_eq:
  "scanConditions cs (a, d) =
     (a \<or> (\<exists>c\<in>set cs. Type c = WorkApplied),
      d \<or> (\<exists>c\<in>set cs. Type c \<noteq> WorkApplied \<and> Type c = WorkDegraded))"
  by (induction cs arbitrary: a d) auto

lemma sort_Slice_nonempty:
  assumes "cs \<noteq> []"
  shows "\<exists>c0 ys. sort_Slice lessFn cs = c0 # ys"
proof -
  have "mset (sort_Slice lessFn cs) = mset cs" by (rule mset_sort_Slice)
  with assms have "sort_Slice lessFn cs \<noteq> []" by (metis mset_zero_iff)
  then show ?thesis by (cases "sort_Slice lessFn cs") auto
qed

lemma getMostRecentConditions_nonempty:
  assumes "cs \<noteq> []" and "orderedByInstant cs" and "oneValueAtMaximum cs"
  shows "\<exists>recent. getMostRecentConditions cs = Inr (sort_Slice moreRecent cs, recent) \<and>
           set recent = {c \<in> set cs. instant c = Max (instant ` set cs)}"
proof -
  let ?s = "sort_Slice moreRecent cs"
  have m: "mset ?s = mset cs" by (rule mset_sort_Slice)
  then have st: "set ?s = set cs" by (metis set_mset_mset)
  obtain c0 ys where s: "?s = c0 # ys" using sort_Slice_nonempty [OF assms(1)] by blast
  have seq: "set (c0 # ys) = set cs" using st s by simp
  have d: "descTime (c0 # ys)" using desc_sort_Slice [OF assms(2)] s by simp
  have o: "oneValueAtMaximum (c0 # ys)"
    using assms(3) unfolding oneValueAtMaximum_def seq .
  from recent_of_sorted [OF d o]
  have "set (takeWhile (\<lambda>c. LastTransitionTime c = LastTransitionTime c0) (c0 # ys))
         = {c \<in> set (c0 # ys). instant c = Max (instant ` set (c0 # ys))}" .
  then have r: "set (takeWhile (\<lambda>c. LastTransitionTime c = LastTransitionTime c0) (c0 # ys))
         = {c \<in> set cs. instant c = Max (instant ` set cs)}"
    unfolding seq .
  have "getMostRecentConditions cs =
          Inr (?s, takeWhile (\<lambda>c. LastTransitionTime c = LastTransitionTime c0) (c0 # ys))"
    by (simp add: getMostRecentConditions_def s)
  with r show ?thesis by blast
qed

text \<open>
  The evaluator never panics, and what it leaves of the ManifestWork is known.
\<close>

lemma IsManifestInAppliedState_total:
  "\<exists>applied. IsManifestInAppliedState mw =
     Inr (applied, if Conditions mw = [] then mw
                   else mw\<lparr>Conditions := sort_Slice moreRecent (Conditions mw)\<rparr>)"
proof (cases "Conditions mw = []")
  case True
  then show ?thesis by (auto simp: IsManifestInAppliedState_def)
next
  case False
  obtain c0 ys where s: "sort_Slice moreRecent (Conditions mw) = c0 # ys"
    using sort_Slice_nonempty [OF False] by blast
  show ?thesis using False s
    by (simp add: IsManifestInAppliedState_def getMostRecentConditions_def Let_def
        split: prod.splits)
qed

lemma IsManifestInAppliedState_eq:
  assumes "orderedByInstant (Conditions mw)" and "oneValueAtMaximum (Conditions mw)"
  shows "IsManifestInAppliedState mw =
     Inr (appliedAtMostRecent (Conditions mw),
          if Conditions mw = [] then mw
          else mw\<lparr>Conditions := sort_Slice moreRecent (Conditions mw)\<rparr>)"
proof (cases "Conditions mw = []")
  case True
  then show ?thesis by (simp add: IsManifestInAppliedState_def appliedAtMostRecent_def)
next
  case False
  from getMostRecentConditions_nonempty [OF False assms] obtain recent where
    g: "getMostRecentConditions (Conditions mw) = Inr (sort_Slice moreRecent (Conditions mw), recent)"
    and r: "set recent = {c \<in> set (Conditions mw).
              instant c = Max (instant ` set (Conditions mw))}"
    by blast
  have diff: "WorkApplied \<noteq> WorkDegraded" by (simp add: WorkApplied_def WorkDegraded_def)
  show ?thesis using False g r diff
    by (auto simp: IsManifestInAppliedState_def appliedAtMostRecent_def Let_def
        scanConditions_eq filterByConditionStatus_def)
qed


text \<open>
  Claim C1, as stated, fails: the most recent conditions are the leading conditions of the
  sorted slice whose timestamp is \<^verbatim>\<open>==\<close> to the first one's, and \<^verbatim>\<open>==\<close> compares the
  location and the monotonic reading with the instant. With Applied and Degraded, both
  true, at the instant 5 in two locations, the evaluator returns true when Applied comes
  first in the input and false when Degraded does. And \<^verbatim>\<open>Before\<close> compares monotonic
  readings where both timestamps carry one: with Applied at the instant 5 and Degraded at
  the older instant 3, read after the wall clock was set back, Degraded sorts first and
  the evaluator returns false.
\<close>

theorem applied_state_compares_values:
  "instant applied5utc = instant degraded5 \<and>
   IsManifestInAppliedState (restoreWork [applied5utc, degraded5]) =
     Inr (True, restoreWork [applied5utc, degraded5]) \<and>
   IsManifestInAppliedState (restoreWork [degraded5, applied5utc]) =
     Inr (False, restoreWork [degraded5, applied5utc]) \<and>
   instant degradedAfterStep < instant appliedBeforeStep \<and>
   IsManifestInAppliedState (restoreWork [appliedBeforeStep, degradedAfterStep]) =
     Inr (False, restoreWork [degradedAfterStep, appliedBeforeStep])"
  by (simp add: IsManifestInAppliedState_def getMostRecentConditions_def sort_Slice_def
      insertionStep_def moreRecent_def Before_def filterByConditionStatus_def instant_def
      applied5_def degraded5_def degraded3_def applied5utc_def appliedBeforeStep_def
      degradedAfterStep_def decoded_def restoreWork_def
      WorkApplied_def WorkDegraded_def ConditionTrue_def)

text \<open>
  Claim C1, amended. For a list of conditions whose timestamps \<^verbatim>\<open>Before\<close> orders by
  their instants and whose timestamps at the maximum instant are one value (both hold of
  timestamps decoded from the API server), \<^verbatim>\<open>IsManifestInAppliedState\<close> never panics and
  returns false on the empty list; otherwise it returns true exactly when, among the
  conditions whose instant is the maximum instant of the list, there is one of type
  Applied with status true and none of type Degraded with status true. The right-hand side
  reads the list as a set, so neither the order of the input nor repeated timestamps
  matter.
\<close>

theorem applied_state_most_recent:
  assumes "orderedByInstant (Conditions mw)" and "oneValueAtMaximum (Conditions mw)"
  shows "\<exists>mw'. IsManifestInAppliedState mw =
     Inr ((Conditions mw \<noteq> [] \<and>
           (\<exists>c\<in>set (Conditions mw).
               instant c = Max (instant ` set (Conditions mw)) \<and>
               Type c = WorkApplied \<and> Status c = ConditionTrue) \<and>
           \<not> (\<exists>c\<in>set (Conditions mw).
               instant c = Max (instant ` set (Conditions mw)) \<and>
               Type c = WorkDegraded \<and> Status c = ConditionTrue)), mw')"
  using IsManifestInAppliedState_eq [OF assms] by (simp add: appliedAtMostRecent_def)

theorem applied_state_most_recent_witness:
  "(\<exists>mw'. IsManifestInAppliedState (restoreWork [applied5, degraded5]) = Inr (False, mw')) \<and>
   (\<exists>mw'. IsManifestInAppliedState (restoreWork [degraded3, applied5]) = Inr (True, mw')) \<and>
   (\<exists>mw'. IsManifestInAppliedState (restoreWork []) = Inr (False, mw'))"
proof -
  have o: "orderedByInstant (Conditions (restoreWork [applied5, degraded5]))"
    "orderedByInstant (Conditions (restoreWork [degraded3, applied5]))"
    "orderedByInstant (Conditions (restoreWork []))"
    by (simp_all add: orderedByInstant_def instant_def Before_def restoreWork_def applied5_def
        degraded5_def degraded3_def decoded_def)
  have v: "oneValueAtMaximum (Conditions (restoreWork [applied5, degraded5]))"
    "oneValueAtMaximum (Conditions (restoreWork [degraded3, applied5]))"
    "oneValueAtMaximum (Conditions (restoreWork []))"
    by (simp_all add: oneValueAtMaximum_def instant_def restoreWork_def applied5_def
        degraded5_def degraded3_def decoded_def)
  from applied_state_most_recent [OF o(1) v(1)] applied_state_most_recent [OF o(2) v(2)]
    applied_state_most_recent [OF o(3) v(3)]
  show ?thesis
    by (simp add: instant_def restoreWork_def applied5_def degraded5_def degraded3_def decoded_def
        WorkApplied_def WorkDegraded_def ConditionTrue_def)
qed




subsection \<open>The object store\<close>

text \<open>
  Every client call appends itself to the log; reads change nothing else.
\<close>

lemma issue_fields:
  assumes "issue c r = (failed, r1)"
  shows "calls r1 = calls r @ [c]" "manifestWorks r1 = manifestWorks r"
    "placementRules r1 = placementRules r" "subscriptions r1 = subscriptions r"
    "avrs r1 = avrs r" "S3 r1 = S3 r"
    "PlaceByGenericPlacmentFields r1 = PlaceByGenericPlacmentFields r"
    "constructBucketName r1 = constructBucketName r" "jsonMarshal r1 = jsonMarshal r"
  using assms by (auto simp: issue_def split: list.splits)

lemma clientUpdateSubscription_calls:
  "clientUpdateSubscription sub r = (err, r1) \<Longrightarrow> calls r1 = calls r @ [UpdateSubscription sub]"
  by (auto simp: clientUpdateSubscription_def Let_def issue_def split: list.splits if_splits prod.splits)

lemma clientGetManifestWork_fields:
  assumes "clientGetManifestWork key r = (res, r1)"
  shows "calls r1 = calls r @ [GetManifestWork key]" "manifestWorks r1 = manifestWorks r"
    "subscriptions r1 = subscriptions r" "avrs r1 = avrs r"
  using assms
  by (auto simp: clientGetManifestWork_def issue_def split: list.splits if_splits option.splits)

lemma clientGetManifestWork_result:
  assumes "clientGetManifestWork key r = (res, r1)"
  shows "res = Inl IOError \<or> (res = Inl NotFound \<and> manifestWorks r key = None) \<or>
         (\<exists>found. res = Inr found \<and> manifestWorks r key = Some found)"
  using assms
  by (auto simp: clientGetManifestWork_def issue_def split: list.splits if_splits option.splits)

lemma clientCreateManifestWork_fields:
  assumes "clientCreateManifestWork mw r = (err, r1)"
  shows "calls r1 = calls r @ [CreateManifestWork mw]"
    "err = None \<Longrightarrow> manifestWorks r1 =
       (manifestWorks r)((mwNamespace mw, mwName mw) \<mapsto>
          mw\<lparr>Manifests := omitEmpty (Manifests mw), Conditions := []\<rparr>)"
    "err \<noteq> None \<Longrightarrow> manifestWorks r1 = manifestWorks r"
  using assms
  by (auto simp: clientCreateManifestWork_def issue_def Let_def split: list.splits if_splits option.splits)

lemma clientUpdateManifestWork_fields:
  assumes "clientUpdateManifestWork mw r = (err, r1)"
  shows "calls r1 = calls r @ [UpdateManifestWork mw]"
    "err = None \<Longrightarrow> map_option Manifests (manifestWorks r1 (mwNamespace mw, mwName mw)) =
       Some (omitEmpty (Manifests mw))"
    "err \<noteq> None \<Longrightarrow> manifestWorks r1 = manifestWorks r"
  using assms
  by (auto simp: clientUpdateManifestWork_def issue_def Let_def split: list.splits if_splits option.splits)

subsection \<open>Unpausing a subscription\<close>

text \<open>
  Claim C10. With a nil label map \<^verbatim>\<open>unpauseSubscription\<close> returns an error, issues no
  client call and leaves the subscription and the store as they are. With a label map it
  sets the pause label to \<^verbatim>\<open>false\<close>, leaves every other label (the DR-state label
  \<^verbatim>\<open>ramendr\<close> among them) as it is, and issues exactly one update, of that subscription.
\<close>

theorem unpause_labels:
  "(subLabels subscription = None \<longrightarrow>
      unpauseSubscription subscription r =
        (Some (Failure ''failed to find labels for subscription''), subscription, r)) \<and>
   (\<forall>labels. subLabels subscription = Some labels \<longrightarrow>
      (\<exists>err labels' r1.
         unpauseSubscription subscription r = (err, subscription\<lparr>subLabels := Some labels'\<rparr>, r1) \<and>
         labels' LabelSubscriptionPause = Some ''false'' \<and>
         (\<forall>k. k \<noteq> LabelSubscriptionPause \<longrightarrow> labels' k = labels k) \<and>
         labels' RamenDRLabelName = labels RamenDRLabelName \<and>
         calls r1 = calls r @ [UpdateSubscription (subscription\<lparr>subLabels := Some labels'\<rparr>)]))"
proof (intro conjI allI impI)
  assume "subLabels subscription = None"
  then show "unpauseSubscription subscription r =
        (Some (Failure ''failed to find labels for subscription''), subscription, r)"
    by (simp add: unpauseSubscription_def)
next
  fix labels assume l: "subLabels subscription = Some labels"
  let ?l = "labels(LabelSubscriptionPause \<mapsto> ''false'')"
  let ?s = "subscription\<lparr>subLabels := Some ?l\<rparr>"
  obtain err r1 where u: "clientUpdateSubscription ?s r = (err, r1)" by (cases "clientUpdateSubscription ?s r")
  have "unpauseSubscription subscription r = (err, ?s, r1)"
    using l u by (simp add: unpauseSubscription_def)
  moreover have "calls r1 = calls r @ [UpdateSubscription ?s]"
    using u by (rule clientUpdateSubscription_calls)
  moreover have "?l RamenDRLabelName = labels RamenDRLabelName"
    by (simp add: RamenDRLabelName_def LabelSubscriptionPause_def)
  ultimately show "\<exists>err labels' r1.
         unpauseSubscription subscription r = (err, subscription\<lparr>subLabels := Some labels'\<rparr>, r1) \<and>
         labels' LabelSubscriptionPause = Some ''false'' \<and>
         (\<forall>k. k \<noteq> LabelSubscriptionPause \<longrightarrow> labels' k = labels k) \<and>
         labels' RamenDRLabelName = labels RamenDRLabelName \<and>
         calls r1 = calls r @ [UpdateSubscription (subscription\<lparr>subLabels := Some labels'\<rparr>)]"
    by (intro exI[of _ err] exI[of _ ?l] exI[of _ r1]) simp
qed

theorem unpause_labels_witness:
  "unpauseSubscription (app1\<lparr>subLabels := None\<rparr>) hub =
     (Some (Failure ''failed to find labels for subscription''), app1\<lparr>subLabels := None\<rparr>, hub) \<and>
   (\<exists>err labels' r1.
      unpauseSubscription app1 hub = (err, app1\<lparr>subLabels := Some labels'\<rparr>, r1) \<and>
      labels' ''subscription-pause'' = Some ''false'' \<and>
      labels' ''ramendr'' = Some ''protected'' \<and>
      calls r1 = [UpdateSubscription (app1\<lparr>subLabels := Some labels'\<rparr>)])"
proof -
  have a: "subLabels (app1\<lparr>subLabels := None\<rparr>) = None" by simp
  have b: "subLabels app1 = Some [''ramendr'' \<mapsto> ''protected'', ''subscription-pause'' \<mapsto> ''true'']"
    by (simp add: app1_def)
  from unpause_labels [of "app1\<lparr>subLabels := None\<rparr>" hub] a
  have 1: "unpauseSubscription (app1\<lparr>subLabels := None\<rparr>) hub =
     (Some (Failure ''failed to find labels for subscription''), app1\<lparr>subLabels := None\<rparr>, hub)"
    by blast
  from unpause_labels [of app1 hub] b
  obtain err labels' r1 where
    "unpauseSubscription app1 hub = (err, app1\<lparr>subLabels := Some labels'\<rparr>, r1)"
    "labels' LabelSubscriptionPause = Some ''false''"
    "labels' RamenDRLabelName = [''ramendr'' \<mapsto> ''protected'', ''subscription-pause'' \<mapsto> ''true''] RamenDRLabelName"
    "calls r1 = calls hub @ [UpdateSubscription (app1\<lparr>subLabels := Some labels'\<rparr>)]"
    by blast
  then have "unpauseSubscription app1 hub = (err, app1\<lparr>subLabels := Some labels'\<rparr>, r1) \<and>
      labels' ''subscription-pause'' = Some ''false'' \<and>
      labels' ''ramendr'' = Some ''protected'' \<and>
      calls r1 = [UpdateSubscription (app1\<lparr>subLabels := Some labels'\<rparr>)]"
    by (simp add: LabelSubscriptionPause_def RamenDRLabelName_def hub_def)
  with 1 show ?thesis by blast
qed

subsection \<open>Placement\<close>

text \<open>
  Claim C6. With the pair size 2, \<^verbatim>\<open>getManagedClustersUsingPlacementRule\<close> fails when the
  rule declares a replica count other than 1, when the resolved cluster map is empty, and
  when it does not hold exactly two clusters; with exactly two clusters and a replica
  count of 1 or none it returns the map. Whenever it fails, the caller
  \<^verbatim>\<open>extractHomeClusterAndPeerCluster\<close> returns an error and no home/peer pair.
\<close>

theorem placement_cardinality:
  "((\<exists>replicas. ClusterReplicas placementRule = Some replicas \<and> replicas \<noteq> 1) \<longrightarrow>
      isl (getManagedClustersUsingPlacementRule r placementRule 2)) \<and>
   (\<forall>clmap. PlaceByGenericPlacmentFields r placementRule = Inr clmap \<and> clmap = [] \<longrightarrow>
      isl (getManagedClustersUsingPlacementRule r placementRule 2)) \<and>
   (\<forall>clmap. PlaceByGenericPlacmentFields r placementRule = Inr clmap \<and> length clmap \<noteq> 2 \<longrightarrow>
      isl (getManagedClustersUsingPlacementRule r placementRule 2)) \<and>
   (\<forall>clmap. PlaceByGenericPlacmentFields r placementRule = Inr clmap \<and> length clmap = 2 \<and>
            (ClusterReplicas placementRule = None \<or> ClusterReplicas placementRule = Some 1) \<longrightarrow>
      getManagedClustersUsingPlacementRule r placementRule 2 = Inr clmap) \<and>
   (isl (getManagedClustersUsingPlacementRule r placementRule 2) \<longrightarrow>
      (\<exists>err. extractHomeClusterAndPeerCluster r subscription placementRule = Inr (Inl err)))"
  by (auto simp: getManagedClustersUsingPlacementRule_def filterClusters_def
      requiredClusterReplicas_def extractHomeClusterAndPeerCluster_def
      split: sum.splits option.splits)

theorem placement_cardinality_witness:
  "isl (getManagedClustersUsingPlacementRule hub (placement1\<lparr>ClusterReplicas := Some 3\<rparr>) 2) \<and>
   isl (getManagedClustersUsingPlacementRule
          (hub\<lparr>PlaceByGenericPlacmentFields := (\<lambda>placementRule. Inr [])\<rparr>) placement1 2) \<and>
   isl (getManagedClustersUsingPlacementRule
          (hub\<lparr>PlaceByGenericPlacmentFields := (\<lambda>placementRule. Inr [(''east'', \<lparr>mcName = ''east''\<rparr>)])\<rparr>)
          placement1 2) \<and>
   getManagedClustersUsingPlacementRule hub placement1 2 = Inr eastWest \<and>
   (\<exists>err. extractHomeClusterAndPeerCluster hub app1 (placement1\<lparr>ClusterReplicas := Some 3\<rparr>) = Inr (Inl err))"
proof -
  have 1: "isl (getManagedClustersUsingPlacementRule hub (placement1\<lparr>ClusterReplicas := Some 3\<rparr>) 2)"
    using placement_cardinality [of "placement1\<lparr>ClusterReplicas := Some 3\<rparr>" hub app1] by simp
  have 2: "isl (getManagedClustersUsingPlacementRule
          (hub\<lparr>PlaceByGenericPlacmentFields := (\<lambda>placementRule. Inr [])\<rparr>) placement1 2)"
    using placement_cardinality [of placement1 "hub\<lparr>PlaceByGenericPlacmentFields := (\<lambda>placementRule. Inr [])\<rparr>" app1]
    by simp
  have 3: "isl (getManagedClustersUsingPlacementRule
          (hub\<lparr>PlaceByGenericPlacmentFields := (\<lambda>placementRule. Inr [(''east'', \<lparr>mcName = ''east''\<rparr>)])\<rparr>)
          placement1 2)"
    using placement_cardinality [of placement1
        "hub\<lparr>PlaceByGenericPlacmentFields := (\<lambda>placementRule. Inr [(''east'', \<lparr>mcName = ''east''\<rparr>)])\<rparr>" app1]
    by simp
  have 4: "getManagedClustersUsingPlacementRule hub placement1 2 = Inr eastWest"
    using placement_cardinality [of placement1 hub app1]
    by (simp add: hub_def eastWest_def placement1_def)
  have 5: "\<exists>err. extractHomeClusterAndPeerCluster hub app1 (placement1\<lparr>ClusterReplicas := Some 3\<rparr>) = Inr (Inl err)"
    using placement_cardinality [of "placement1\<lparr>ClusterReplicas := Some 3\<rparr>" hub app1] 1 by blast
  from 1 2 3 4 5 show ?thesis by blast
qed

text \<open>
  Claim C2, as stated, fails where it says that two resolved clusters that both have a
  status entry give an error: the first case of the switch matches, and the call returns
  a home and a peer.
\<close>

theorem both_statuses_no_error:
  "hasStatus [''east'' \<mapsto> Some ''Subscribed'', ''west'' \<mapsto> Some ''Subscribed''] ''east'' \<and>
   hasStatus [''east'' \<mapsto> Some ''Subscribed'', ''west'' \<mapsto> Some ''Subscribed''] ''west'' \<and>
   extractHomeClusterAndPeerCluster hub
     (app1\<lparr>Statuses := Some [''east'' \<mapsto> Some ''Subscribed'', ''west'' \<mapsto> Some ''Subscribed'']\<rparr>)
     placement1 = Inr (Inr (''east'', ''west''))"
  by (simp add: extractHomeClusterAndPeerCluster_def getManagedClustersUsingPlacementRule_def
      filterClusters_def requiredClusterReplicas_def hasStatus_def hub_def eastWest_def
      placement1_def numeral_2_eq_2)

text \<open>
  Claim C2, amended. For a subscription and a resolved pair of clusters: whenever the
  call returns a home and a peer, the home is a resolved cluster whose name has a non-nil
  entry in the status map of the subscription and the peer is the other resolved cluster;
  when exactly one of the two resolved clusters has such an entry, the call returns that
  cluster as home and the other as peer; when neither has one (a nil status map has none),
  the call returns an error.
\<close>

theorem home_and_peer:
  assumes "PlaceByGenericPlacmentFields r placementRule = Inr [(k1, d1), (k2, d2)]"
    and "ClusterReplicas placementRule = None \<or> ClusterReplicas placementRule = Some 1"
  shows
   "(\<forall>home peer.
       extractHomeClusterAndPeerCluster r subscription placementRule = Inr (Inr (home, peer)) \<longrightarrow>
         statusEntry subscription home \<and>
         ((home, peer) = (mcName d1, mcName d2) \<or> (home, peer) = (mcName d2, mcName d1))) \<and>
    (statusEntry subscription (mcName d1) \<and> \<not> statusEntry subscription (mcName d2) \<longrightarrow>
       extractHomeClusterAndPeerCluster r subscription placementRule = Inr (Inr (mcName d1, mcName d2))) \<and>
    (\<not> statusEntry subscription (mcName d1) \<and> statusEntry subscription (mcName d2) \<longrightarrow>
       extractHomeClusterAndPeerCluster r subscription placementRule = Inr (Inr (mcName d2, mcName d1))) \<and>
    (\<not> statusEntry subscription (mcName d1) \<and> \<not> statusEntry subscription (mcName d2) \<longrightarrow>
       (\<exists>err. extractHomeClusterAndPeerCluster r subscription placementRule = Inr (Inl err)))"
proof (cases "Statuses subscription")
  case None
  then show ?thesis
    by (simp add: extractHomeClusterAndPeerCluster_def statusEntry_def)
next
  case (Some subStatuses)
  with assms show ?thesis
    by (auto simp: extractHomeClusterAndPeerCluster_def getManagedClustersUsingPlacementRule_def
        filterClusters_def requiredClusterReplicas_def statusEntry_def Let_def numeral_2_eq_2)
qed

theorem home_and_peer_witness:
  "extractHomeClusterAndPeerCluster hub app1 placement1 = Inr (Inr (''east'', ''west'')) \<and>
   statusEntry app1 ''east'' \<and>
   extractHomeClusterAndPeerCluster hub (app1\<lparr>Statuses := Some [''west'' \<mapsto> Some ''Subscribed'']\<rparr>) placement1
     = Inr (Inr (''west'', ''east'')) \<and>
   (\<exists>err. extractHomeClusterAndPeerCluster hub (app1\<lparr>Statuses := Some Map.empty\<rparr>) placement1
     = Inr (Inl err)) \<and>
   (\<exists>err. extractHomeClusterAndPeerCluster hub (app1\<lparr>Statuses := None\<rparr>) placement1
     = Inr (Inl err))"
proof -
  have p: "PlaceByGenericPlacmentFields hub placement1 =
             Inr [(''east'', \<lparr>mcName = ''east''\<rparr>), (''west'', \<lparr>mcName = ''west''\<rparr>)]"
    by (simp add: hub_def eastWest_def)
  have c: "ClusterReplicas placement1 = None \<or> ClusterReplicas placement1 = Some 1"
    by (simp add: placement1_def)
  have 1: "extractHomeClusterAndPeerCluster hub app1 placement1 = Inr (Inr (''east'', ''west''))"
    using home_and_peer [OF p c, of app1]
    by (simp add: app1_def statusEntry_def hasStatus_def)
  have 2: "statusEntry app1 ''east''"
    using home_and_peer [OF p c, of app1] 1 by blast
  have 3: "extractHomeClusterAndPeerCluster hub (app1\<lparr>Statuses := Some [''west'' \<mapsto> Some ''Subscribed'']\<rparr>)
             placement1 = Inr (Inr (''west'', ''east''))"
    using home_and_peer [OF p c, of "app1\<lparr>Statuses := Some [''west'' \<mapsto> Some ''Subscribed'']\<rparr>"]
    by (simp add: statusEntry_def hasStatus_def)
  have 4: "\<exists>err. extractHomeClusterAndPeerCluster hub (app1\<lparr>Statuses := Some Map.empty\<rparr>) placement1
     = Inr (Inl err)"
    using home_and_peer [OF p c, of "app1\<lparr>Statuses := Some Map.empty\<rparr>"]
    by (simp add: statusEntry_def hasStatus_def)
  have 5: "\<exists>err. extractHomeClusterAndPeerCluster hub (app1\<lparr>Statuses := None\<rparr>) placement1
     = Inr (Inl err)"
    using home_and_peer [OF p c, of "app1\<lparr>Statuses := None\<rparr>"]
    by (simp add: statusEntry_def)
  from 1 2 3 4 5 show ?thesis by blast
qed

subsection \<open>The work convergence step\<close>

text \<open>
  Every ManifestWork the generators build lives in the namespace of the cluster it is
  converged on.
\<close>

lemma generated_bundles_namespace:
  "generateVRGRolesManifestWork r namespace = Inr mw \<Longrightarrow> mwNamespace mw = namespace"
  "generateVRGManifestWork r name ns homeCluster s3Endpoint s3SecretName = Inr mw \<Longrightarrow>
     mwNamespace mw = homeCluster"
  "generatePVManifestWork r name ns homeCluster pvList = Inr mw \<Longrightarrow> mwNamespace mw = homeCluster"
  by (auto simp: generateVRGRolesManifestWork_def generateVRGManifestWork_def
      generatePVManifestWork_def newManifestWork_def split: sum.splits)

text \<open>
  Claim C3, as stated, fails for a desired ManifestWork whose slice of manifests is empty
  and not nil, which is what \<^verbatim>\<open>generatePVManifestWork\<close> builds for no volume. The store
  leaves the empty slice out of the object, so the second apply reads back a nil slice;
  \<^verbatim>\<open>reflect.DeepEqual\<close> tells a nil slice from an empty one, and the second apply issues
  an update: two applies on a store with no fault issue a create and an update.
\<close>

theorem empty_bundle_applied_twice:
  "generatePVManifestWork hub ''app1'' ''ns1'' ''west'' [] = Inr emptyRestoreWork \<and>
   fst (createOrUpdateManifestWork emptyRestoreWork ''west'' hub) = None \<and>
   fst (createOrUpdateManifestWork emptyRestoreWork ''west''
          (snd (createOrUpdateManifestWork emptyRestoreWork ''west'' hub))) = None \<and>
   calls (snd (createOrUpdateManifestWork emptyRestoreWork ''west''
                 (snd (createOrUpdateManifestWork emptyRestoreWork ''west'' hub)))) =
     [GetManifestWork (''west'', ''app1-ns1-pv-mw''), CreateManifestWork emptyRestoreWork,
      GetManifestWork (''west'', ''app1-ns1-pv-mw''), UpdateManifestWork emptyRestoreWork]"
  by (simp add: generatePVManifestWork_def newManifestWork_def ManifestWorkName_def MWTypePV_def
      createOrUpdateManifestWork_def clientGetManifestWork_def clientCreateManifestWork_def
      clientUpdateManifestWork_def issue_def IsNotFound_def omitEmpty_def emptyRestoreWork_def
      hub_def Let_def)

text \<open>
  Claim C3, amended. \<^verbatim>\<open>createOrUpdateManifestWork\<close> reads the ManifestWork by its name in
  the namespace of the target cluster. If the read answers NotFound, it issues exactly
  one create and nothing else; if it returns a ManifestWork whose spec is deeply equal to
  the desired one, it issues no further call and the store is unchanged; if it returns
  one with a different spec, it issues exactly one update, of the found object with the
  desired spec. Hence, for a ManifestWork of the target namespace that is absent at first
  and whose slice of manifests is not the empty non-nil slice: when a first apply
  succeeds, a second apply issues only its read, so that the two applies issue exactly
  one create and no update.
\<close>

theorem converge_once:
  assumes get: "clientGetManifestWork (ns, mwName mw) r = (res, r1)"
  shows
   "(res = Inl NotFound \<longrightarrow>
       (\<exists>err r2. createOrUpdateManifestWork mw ns r = (err, r2) \<and>
          calls r2 = calls r @ [GetManifestWork (ns, mwName mw), CreateManifestWork mw])) \<and>
    (\<forall>foundMW. res = Inr foundMW \<and> Manifests foundMW = Manifests mw \<longrightarrow>
       createOrUpdateManifestWork mw ns r = (None, r1) \<and>
       calls r1 = calls r @ [GetManifestWork (ns, mwName mw)] \<and>
       manifestWorks r1 = manifestWorks r) \<and>
    (\<forall>foundMW. res = Inr foundMW \<and> Manifests foundMW \<noteq> Manifests mw \<longrightarrow>
       (\<exists>err r2. createOrUpdateManifestWork mw ns r = (err, r2) \<and>
          calls r2 = calls r @ [GetManifestWork (ns, mwName mw),
                                UpdateManifestWork (foundMW\<lparr>Manifests := Manifests mw\<rparr>)] \<and>
          (err = None \<longrightarrow>
             map_option Manifests (manifestWorks r2 (mwNamespace foundMW, mwName foundMW)) =
               Some (omitEmpty (Manifests mw))))) \<and>
    (\<forall>rA errB rB.
       manifestWorks r (ns, mwName mw) = None \<and> mwNamespace mw = ns \<and>
       Manifests mw \<noteq> Some [] \<and>
       createOrUpdateManifestWork mw ns r = (None, rA) \<and>
       createOrUpdateManifestWork mw ns rA = (errB, rB) \<longrightarrow>
         calls rB = calls r @ [GetManifestWork (ns, mwName mw), CreateManifestWork mw,
                               GetManifestWork (ns, mwName mw)] \<and>
         manifestWorks rB = manifestWorks rA \<and>
         map_option Manifests (manifestWorks rB (ns, mwName mw)) = Some (Manifests mw))"
proof (intro conjI allI impI)
  assume nf: "res = Inl NotFound"
  obtain err r2 where c: "clientCreateManifestWork mw r1 = (err, r2)"
    by (cases "clientCreateManifestWork mw r1")
  have "createOrUpdateManifestWork mw ns r = (err, r2)"
    using get nf c by (simp add: createOrUpdateManifestWork_def IsNotFound_def)
  moreover have "calls r2 = calls r @ [GetManifestWork (ns, mwName mw), CreateManifestWork mw]"
    using clientGetManifestWork_fields(1)[OF get] clientCreateManifestWork_fields(1)[OF c] by simp
  ultimately show "\<exists>err r2. createOrUpdateManifestWork mw ns r = (err, r2) \<and>
          calls r2 = calls r @ [GetManifestWork (ns, mwName mw), CreateManifestWork mw]"
    by blast
next
  fix foundMW assume a: "res = Inr foundMW \<and> Manifests foundMW = Manifests mw"
  show "createOrUpdateManifestWork mw ns r = (None, r1)"
    using get a by (simp add: createOrUpdateManifestWork_def)
  show "calls r1 = calls r @ [GetManifestWork (ns, mwName mw)]"
    using clientGetManifestWork_fields(1)[OF get] .
  show "manifestWorks r1 = manifestWorks r"
    using clientGetManifestWork_fields(2)[OF get] .
next
  fix foundMW assume a: "res = Inr foundMW \<and> Manifests foundMW \<noteq> Manifests mw"
  let ?u = "foundMW\<lparr>Manifests := Manifests mw\<rparr>"
  obtain err r2 where u: "clientUpdateManifestWork ?u r1 = (err, r2)"
    by (cases "clientUpdateManifestWork ?u r1")
  have "createOrUpdateManifestWork mw ns r = (err, r2)"
    using get a u by (simp add: createOrUpdateManifestWork_def)
  moreover have "calls r2 = calls r @ [GetManifestWork (ns, mwName mw), UpdateManifestWork ?u]"
    using clientGetManifestWork_fields(1)[OF get] clientUpdateManifestWork_fields(1)[OF u] by simp
  moreover have "err = None \<longrightarrow>
      map_option Manifests (manifestWorks r2 (mwNamespace foundMW, mwName foundMW)) =
        Some (omitEmpty (Manifests mw))"
    using clientUpdateManifestWork_fields(2)[OF u] by simp
  ultimately show "\<exists>err r2. createOrUpdateManifestWork mw ns r = (err, r2) \<and>
          calls r2 = calls r @ [GetManifestWork (ns, mwName mw), UpdateManifestWork ?u] \<and>
          (err = None \<longrightarrow>
             map_option Manifests (manifestWorks r2 (mwNamespace foundMW, mwName foundMW)) =
               Some (omitEmpty (Manifests mw)))"
    by blast
next
  fix rA errB rB
  assume a: "manifestWorks r (ns, mwName mw) = None \<and> mwNamespace mw = ns \<and>
       Manifests mw \<noteq> Some [] \<and>
       createOrUpdateManifestWork mw ns r = (None, rA) \<and>
       createOrUpdateManifestWork mw ns rA = (errB, rB)"
  then have kept: "omitEmpty (Manifests mw) = Manifests mw"
    by (simp add: omitEmpty_def)
  from clientGetManifestWork_result[OF get] a
  consider "res = Inl IOError" | "res = Inl NotFound" by auto
  then have nf: "res = Inl NotFound"
  proof cases
    case 1
    with get a show ?thesis by (simp add: createOrUpdateManifestWork_def IsNotFound_def)
  qed
  have c: "clientCreateManifestWork mw r1 = (None, rA)"
    using get nf a by (simp add: createOrUpdateManifestWork_def IsNotFound_def)
  have callsA: "calls rA = calls r @ [GetManifestWork (ns, mwName mw), CreateManifestWork mw]"
    using clientGetManifestWork_fields(1)[OF get] clientCreateManifestWork_fields(1)[OF c] by simp
  have storeA: "manifestWorks rA (ns, mwName mw) = Some (mw\<lparr>Conditions := []\<rparr>)"
    using clientCreateManifestWork_fields(2)[OF c] a kept by simp
  obtain res2 r3 where get2: "clientGetManifestWork (ns, mwName mw) rA = (res2, r3)"
    by (cases "clientGetManifestWork (ns, mwName mw) rA")
  from clientGetManifestWork_result[OF get2] storeA
  consider "res2 = Inl IOError" | "res2 = Inr (mw\<lparr>Conditions := []\<rparr>)" by auto
  then have second: "rB = r3"
  proof cases
    case 1
    with get2 a show ?thesis by (simp add: createOrUpdateManifestWork_def IsNotFound_def)
  next
    case 2
    with get2 a show ?thesis by (simp add: createOrUpdateManifestWork_def)
  qed
  show "calls rB = calls r @ [GetManifestWork (ns, mwName mw), CreateManifestWork mw,
                               GetManifestWork (ns, mwName mw)]"
    using second callsA clientGetManifestWork_fields(1)[OF get2] by simp
  show "manifestWorks rB = manifestWorks rA"
    using second clientGetManifestWork_fields(2)[OF get2] by simp
  then show "map_option Manifests (manifestWorks rB (ns, mwName mw)) = Some (Manifests mw)"
    using storeA by simp
qed

theorem converge_once_witness:
  "(\<exists>rA errB rB.
      createOrUpdateManifestWork vrgWork ''east'' hub = (None, rA) \<and>
      createOrUpdateManifestWork vrgWork ''east'' rA = (errB, rB) \<and>
      calls rB = [GetManifestWork (''east'', ''app1-ns1-vrg-mw''), CreateManifestWork vrgWork,
                  GetManifestWork (''east'', ''app1-ns1-vrg-mw'')]) \<and>
   (\<exists>err r2.
      createOrUpdateManifestWork (vrgWork\<lparr>Manifests := Some [''vrg2'']\<rparr>) ''east''
        (hub\<lparr>manifestWorks := [(''east'', ''app1-ns1-vrg-mw'') \<mapsto> vrgWork]\<rparr>) = (err, r2) \<and>
      calls r2 = [GetManifestWork (''east'', ''app1-ns1-vrg-mw''),
                  UpdateManifestWork (vrgWork\<lparr>Manifests := Some [''vrg2'']\<rparr>)]) \<and>
   (\<exists>r1. createOrUpdateManifestWork vrgWork ''east''
        (hub\<lparr>manifestWorks := [(''east'', ''app1-ns1-vrg-mw'') \<mapsto> vrgWork]\<rparr>) = (None, r1) \<and>
      calls r1 = [GetManifestWork (''east'', ''app1-ns1-vrg-mw'')])"
proof -
  let ?k = "(''east'', ''app1-ns1-vrg-mw'')"
  let ?hub2 = "hub\<lparr>manifestWorks := [?k \<mapsto> vrgWork]\<rparr>"
  have n: "mwName vrgWork = ''app1-ns1-vrg-mw''" "mwNamespace vrgWork = ''east''"
    by (simp_all add: vrgWork_def)
  have g: "clientGetManifestWork (''east'', mwName vrgWork) hub =
      (Inl NotFound, hub\<lparr>calls := [GetManifestWork ?k]\<rparr>)"
    by (simp add: clientGetManifestWork_def issue_def hub_def vrgWork_def)
  have a: "createOrUpdateManifestWork vrgWork ''east'' hub =
      (None, hub\<lparr>calls := [GetManifestWork ?k, CreateManifestWork vrgWork],
                  manifestWorks := [?k \<mapsto> vrgWork\<lparr>Conditions := []\<rparr>]\<rparr>)"
    by (simp add: createOrUpdateManifestWork_def clientGetManifestWork_def
        clientCreateManifestWork_def issue_def IsNotFound_def omitEmpty_def hub_def vrgWork_def)
  obtain errB rB where b: "createOrUpdateManifestWork vrgWork ''east''
      (hub\<lparr>calls := [GetManifestWork ?k, CreateManifestWork vrgWork],
           manifestWorks := [?k \<mapsto> vrgWork\<lparr>Conditions := []\<rparr>]\<rparr>) = (errB, rB)"
    by (cases "createOrUpdateManifestWork vrgWork ''east''
      (hub\<lparr>calls := [GetManifestWork ?k, CreateManifestWork vrgWork],
           manifestWorks := [?k \<mapsto> vrgWork\<lparr>Conditions := []\<rparr>]\<rparr>)")
  have e: "manifestWorks hub (''east'', mwName vrgWork) = None" by (simp add: hub_def)
  have m: "Manifests vrgWork \<noteq> Some []" by (simp add: vrgWork_def)
  note twice = converge_once [OF g, THEN conjunct2, THEN conjunct2, THEN conjunct2, rule_format]
  from twice [OF conjI [OF e conjI [OF n(2) conjI [OF m conjI [OF a b]]]]]
  have 1: "calls rB = [GetManifestWork ?k, CreateManifestWork vrgWork, GetManifestWork ?k]"
    by (simp add: hub_def n)
  have g2: "clientGetManifestWork (''east'', mwName (vrgWork\<lparr>Manifests := Some [''vrg2'']\<rparr>)) ?hub2 =
      (Inr vrgWork, ?hub2\<lparr>calls := [GetManifestWork ?k]\<rparr>)"
    by (simp add: clientGetManifestWork_def issue_def hub_def vrgWork_def)
  have ne: "Manifests vrgWork \<noteq> Manifests (vrgWork\<lparr>Manifests := Some [''vrg2'']\<rparr>)"
    by (simp add: vrgWork_def)
  from converge_once [OF g2] ne obtain err r2 where
    "createOrUpdateManifestWork (vrgWork\<lparr>Manifests := Some [''vrg2'']\<rparr>) ''east'' ?hub2 = (err, r2)"
    "calls r2 = calls ?hub2 @
       [GetManifestWork (''east'', mwName (vrgWork\<lparr>Manifests := Some [''vrg2'']\<rparr>)),
        UpdateManifestWork (vrgWork\<lparr>Manifests := Manifests (vrgWork\<lparr>Manifests := Some [''vrg2'']\<rparr>)\<rparr>)]"
    by blast
  then have 2: "\<exists>err r2.
      createOrUpdateManifestWork (vrgWork\<lparr>Manifests := Some [''vrg2'']\<rparr>) ''east'' ?hub2 = (err, r2) \<and>
      calls r2 = [GetManifestWork ?k, UpdateManifestWork (vrgWork\<lparr>Manifests := Some [''vrg2'']\<rparr>)]"
    by (simp add: hub_def n)
  have g3: "clientGetManifestWork (''east'', mwName vrgWork) ?hub2 =
      (Inr vrgWork, ?hub2\<lparr>calls := [GetManifestWork ?k]\<rparr>)"
    by (simp add: clientGetManifestWork_def issue_def hub_def vrgWork_def)
  from converge_once [OF g3]
  have 3: "\<exists>r1. createOrUpdateManifestWork vrgWork ''east'' ?hub2 = (None, r1) \<and>
      calls r1 = [GetManifestWork ?k]"
    by (simp add: hub_def vrgWork_def)
  from a b 1 2 3 show ?thesis by blast
qed

subsection \<open>What a subscription leaves alone\<close>

text \<open>
  No step of \<^verbatim>\<open>processSubscription\<close> panics, touches a stored DR intent or issues a status
  write: the guard of \<^verbatim>\<open>IsManifestInAppliedState\<close> keeps \<^verbatim>\<open>conditions[0]\<close> in range, and the
  cluster map that reaches the copy loop of \<^verbatim>\<open>extractHomeClusterAndPeerCluster\<close> holds exactly
  two clusters.
\<close>

lemma statusView_issue:
  "issue c r = (failed, r1) \<Longrightarrow> \<not> isStatusWrite c \<Longrightarrow> statusView r1 = statusView r"
  by (auto simp: issue_def statusView_def statusWrites_def split: list.splits)

lemma statusView_clientGetManifestWork:
  "clientGetManifestWork key r = (res, r1) \<Longrightarrow> statusView r1 = statusView r"
  by (auto simp: clientGetManifestWork_def split: prod.splits if_splits option.splits
      dest!: statusView_issue)

lemma statusView_update [simp]:
  "statusView (r\<lparr>manifestWorks := m\<rparr>) = statusView r"
  "statusView (r\<lparr>subscriptions := s\<rparr>) = statusView r"
  by (simp_all add: statusView_def)

lemma statusView_clientCreateManifestWork:
  "clientCreateManifestWork mw r = (err, r1) \<Longrightarrow> statusView r1 = statusView r"
  by (auto simp: clientCreateManifestWork_def Let_def split: prod.splits if_splits option.splits
      dest!: statusView_issue)

lemma statusView_clientUpdateManifestWork:
  "clientUpdateManifestWork mw r = (err, r1) \<Longrightarrow> statusView r1 = statusView r"
  by (auto simp: clientUpdateManifestWork_def Let_def split: prod.splits if_splits option.splits
      dest!: statusView_issue)

lemma statusView_clientDeleteManifestWork:
  "clientDeleteManifestWork mw r = (err, r1) \<Longrightarrow> statusView r1 = statusView r"
  by (auto simp: clientDeleteManifestWork_def Let_def split: prod.splits if_splits option.splits
      dest!: statusView_issue)

lemma statusView_clientGetPlacementRule:
  "clientGetPlacementRule key r = (res, r1) \<Longrightarrow> statusView r1 = statusView r"
  by (auto simp: clientGetPlacementRule_def split: prod.splits if_splits option.splits
      dest!: statusView_issue)

lemma statusView_clientUpdateSubscription:
  "clientUpdateSubscription sub r = (err, r1) \<Longrightarrow> statusView r1 = statusView r"
  by (auto simp: clientUpdateSubscription_def Let_def split: prod.splits if_splits option.splits
      dest!: statusView_issue)

lemma statusView_clientGetAVR:
  "clientGetAVR key r = (res, r1) \<Longrightarrow> statusView r1 = statusView r"
  by (auto simp: clientGetAVR_def split: prod.splits if_splits option.splits
      dest!: statusView_issue)

lemma statusView_clientListSubscriptions:
  "clientListSubscriptions ns r = (res, r1) \<Longrightarrow> statusView r1 = statusView r"
  by (auto simp: clientListSubscriptions_def split: prod.splits if_splits option.splits
      dest!: statusView_issue)

lemma statusView_createOrUpdateManifestWork:
  "createOrUpdateManifestWork mw ns r = (err, r1) \<Longrightarrow> statusView r1 = statusView r"
  by (auto simp: createOrUpdateManifestWork_def split: prod.splits sum.splits if_splits
      dest!: statusView_clientGetManifestWork statusView_clientCreateManifestWork
             statusView_clientUpdateManifestWork)

lemma statusView_findManifestWork:
  "findManifestWork sub h t r = (res, r1) \<Longrightarrow> statusView r1 = statusView r"
  by (auto simp: findManifestWork_def Let_def split: prod.splits sum.splits if_splits
      dest!: statusView_clientGetManifestWork)

lemma statusView_createOrUpdateVRGRolesManifestWork:
  "createOrUpdateVRGRolesManifestWork ns r = (err, r1) \<Longrightarrow> statusView r1 = statusView r"
  by (auto simp: createOrUpdateVRGRolesManifestWork_def split: sum.splits
      dest!: statusView_createOrUpdateManifestWork)

lemma statusView_createOrUpdateVRGManifestWork:
  "createOrUpdateVRGManifestWork n ns h e s r = (err, r1) \<Longrightarrow> statusView r1 = statusView r"
  by (auto simp: createOrUpdateVRGManifestWork_def split: sum.splits
      dest!: statusView_createOrUpdateManifestWork)

lemma statusView_createOrUpdatePVsManifestWork:
  "createOrUpdatePVsManifestWork n ns h pvs r = (err, r1) \<Longrightarrow> statusView r1 = statusView r"
  by (auto simp: createOrUpdatePVsManifestWork_def split: sum.splits
      dest!: statusView_createOrUpdateManifestWork)

lemma statusView_deleteExistingManfiestWork:
  "deleteExistingManfiestWork avr sub r = (err, r1) \<Longrightarrow> statusView r1 = statusView r"
  by (auto simp: deleteExistingManfiestWork_def Let_def split: option.splits prod.splits sum.splits if_splits
      dest!: statusView_clientGetManifestWork statusView_clientDeleteManifestWork)

lemma statusView_restorePVFromBackup:
  "restorePVFromBackup avr sub h r = (err, r1) \<Longrightarrow> statusView r1 = statusView r"
  by (auto simp: restorePVFromBackup_def split: sum.splits if_splits
      dest!: statusView_createOrUpdatePVsManifestWork)

lemma statusView_processPausedSubscription:
  "processPausedSubscription avr sub r = (res, r1) \<Longrightarrow> statusView r1 = statusView r"
  by (auto simp: processPausedSubscription_def Let_def
      split: if_splits prod.splits sum.splits option.splits
      dest!: statusView_findManifestWork statusView_deleteExistingManfiestWork
             statusView_restorePVFromBackup)

lemma waitForManifest_total:
  "\<exists>wait r1. waitForManifest sub cl pvMW r = Inr (wait, r1) \<and> statusView r1 = statusView r"
proof -
  obtain lookup r1 where l:
    "(case pvMW of None \<Rightarrow> findManifestWork sub cl MWTypePV r | Some _ \<Rightarrow> (Inr pvMW, r)) = (lookup, r1)"
    by (cases "case pvMW of None \<Rightarrow> findManifestWork sub cl MWTypePV r | Some _ \<Rightarrow> (Inr pvMW, r)")
  have v: "statusView r1 = statusView r"
    using l by (cases pvMW) (auto dest!: statusView_findManifestWork)
  show ?thesis
  proof (cases lookup)
    case (Inl err)
    with l v show ?thesis by (auto simp: waitForManifest_def)
  next
    case (Inr found)
    show ?thesis
    proof (cases found)
      case None
      with l v Inr show ?thesis by (auto simp: waitForManifest_def)
    next
      case (Some mw)
      obtain applied mw' where "IsManifestInAppliedState mw = Inr (applied, mw')"
        using IsManifestInAppliedState_total [of mw] by blast
      with l v Inr Some show ?thesis by (auto simp: waitForManifest_def)
    qed
  qed
qed

lemma statusView_unpauseSubscription:
  "unpauseSubscription sub r = (err, sub', r1) \<Longrightarrow> statusView r1 = statusView r"
  by (auto simp: unpauseSubscription_def Let_def split: option.splits prod.splits
      dest!: statusView_clientUpdateSubscription)

lemma statusView_vrgManifestWorkAlreadyExists:
  "vrgManifestWorkAlreadyExists avr sub r = (res, r1) \<Longrightarrow> statusView r1 = statusView r"
  by (auto simp: vrgManifestWorkAlreadyExists_def split: option.splits prod.splits sum.splits
      dest!: statusView_findManifestWork)

lemma fillClusters_pair:
  "fillClusters [(k1, c1), (k2, c2)] 0 [a, b] = Inr [c1, c2]"
  by simp

lemma extractHomeClusterAndPeerCluster_total:
  "\<exists>res. extractHomeClusterAndPeerCluster r sub pr = Inr res"
proof (cases "Statuses sub")
  case None
  then show ?thesis by (simp add: extractHomeClusterAndPeerCluster_def)
next
  case (Some st)
  show ?thesis
  proof (cases "getManagedClustersUsingPlacementRule r pr 2")
    case (Inl e)
    with Some show ?thesis by (simp add: extractHomeClusterAndPeerCluster_def)
  next
    case (Inr clmap)
    then have "length clmap = 2"
      by (auto simp: getManagedClustersUsingPlacementRule_def split: sum.splits if_splits option.splits)
    then obtain k1 c1 k2 c2 where "clmap = [(k1, c1), (k2, c2)]"
      by (cases clmap; cases "tl clmap") (auto simp: numeral_2_eq_2)
    with Some Inr show ?thesis
      by (simp add: extractHomeClusterAndPeerCluster_def numeral_2_eq_2)
  qed
qed

lemma extractHomeClusterAndPeerCluster_no_panic:
  "extractHomeClusterAndPeerCluster r sub pr \<noteq> Inl p"
  using extractHomeClusterAndPeerCluster_total [of r sub pr] by auto

lemma selectPlacementDecision_total:
  "\<exists>res r1. selectPlacementDecision sub r = Inr (res, r1) \<and> statusView r1 = statusView r"
  by (auto simp: selectPlacementDecision_def Let_def extractHomeClusterAndPeerCluster_no_panic
      split: option.splits prod.splits sum.splits dest!: statusView_clientGetPlacementRule)

lemma processUnpausedSubscription_total:
  "\<exists>res r1. processUnpausedSubscription avr sub r = Inr (res, r1) \<and> statusView r1 = statusView r"
proof -
  obtain res r1 where s: "selectPlacementDecision sub r = Inr (res, r1)"
    and v: "statusView r1 = statusView r"
    using selectPlacementDecision_total by blast
  show ?thesis
    using s v
    by (auto simp: processUnpausedSubscription_def
        split: option.splits prod.splits sum.splits
        dest!: statusView_createOrUpdateVRGRolesManifestWork statusView_createOrUpdateVRGManifestWork)
qed

lemma processSubscription_total:
  "\<exists>d requeue r1. processSubscription avr sub r = Inr (d, requeue, r1) \<and>
      statusView r1 = statusView r"
proof (cases "isSubsriptionPausedForDR (subLabels sub)")
  case True
  obtain res r1 where p: "processPausedSubscription avr sub r = (res, r1)"
    by (cases "processPausedSubscription avr sub r")
  note v1 = statusView_processPausedSubscription [OF p]
  show ?thesis
  proof (cases res)
    case (Inl e)
    with True p v1 show ?thesis by (auto simp: processSubscription_def)
  next
    case (Inr hp)
    obtain h pv where hp: "hp = (h, pv)" by (cases hp)
    obtain w r2 where w: "waitForManifest sub h pv r1 = Inr (w, r2)"
      and v2: "statusView r2 = statusView r1"
      using waitForManifest_total by blast
    obtain e s' r3 where u: "unpauseSubscription sub r2 = (e, s', r3)"
      by (cases "unpauseSubscription sub r2")
    note v3 = statusView_unpauseSubscription [OF u]
    from True p Inr hp w u v1 v2 v3 show ?thesis
      by (cases e) (auto simp: processSubscription_def)
  qed
next
  case False
  obtain res r1 where e: "vrgManifestWorkAlreadyExists avr sub r = (res, r1)"
    by (cases "vrgManifestWorkAlreadyExists avr sub r")
  note v1 = statusView_vrgManifestWorkAlreadyExists [OF e]
  obtain res2 r2 where u: "processUnpausedSubscription avr sub r1 = Inr (res2, r2)"
    and v2: "statusView r2 = statusView r1"
    using processUnpausedSubscription_total by blast
  from False e u v1 v2 show ?thesis
    by (cases res; cases res2) (auto simp: processSubscription_def)
qed

subsection \<open>The loop over the subscriptions\<close>

lemma outcomes_subscriptions:
  "map fst (outcomes avr subs r) = filter (\<lambda>s. \<not> isLocalSubscription s) subs"
proof (induction subs arbitrary: r)
  case Nil
  show ?case by simp
next
  case (Cons s items)
  obtain d q r1 where p: "processSubscription avr s r = Inr (d, q, r1)"
    using processSubscription_total by blast
  show ?case using Cons [of r] Cons [of r1] p by simp
qed

lemma loop_requeue:
  "\<exists>pd' r'. processSubscriptionsLoop avr subs (pd, rq, r) =
     Inr (pd', rq \<or> (\<exists>x\<in>set (outcomes avr subs r). snd (snd x)), r')"
proof (induction subs arbitrary: pd rq r)
  case Nil
  show ?case by simp
next
  case (Cons s items)
  show ?case
  proof (cases "isLocalSubscription s")
    case True
    with Cons [of pd rq r] show ?thesis by simp
  next
    case False
    obtain d q r1 where p: "processSubscription avr s r = Inr (d, q, r1)"
      using processSubscription_total by blast
    show ?thesis
    proof (cases q)
      case True
      with False p Cons [of pd True r1] show ?thesis by simp
    next
      case nq: False
      show ?thesis
      proof (cases d)
        case None
        with False p nq Cons [of pd rq r1] show ?thesis by simp
      next
        case (Some dec)
        with False p nq Cons [of "AList.update (subName s) dec pd" rq r1] show ?thesis by simp
      qed
    qed
  qed
qed

lemma loop_entries_sound:
  "processSubscriptionsLoop avr subs (pd, rq, r) = Inr (pd', rq', r') \<Longrightarrow>
   map_of pd' name = Some dec \<Longrightarrow>
   map_of pd name = Some dec \<or>
   (\<exists>s. (s, Some dec, False) \<in> set (outcomes avr subs r) \<and> subName s = name)"
proof (induction subs arbitrary: pd rq r)
  case Nil
  then show ?case by simp
next
  case (Cons s items)
  show ?case
  proof (cases "isLocalSubscription s")
    case True
    with Cons.IH [of pd rq r] Cons.prems show ?thesis by simp
  next
    case False
    obtain d q r1 where p: "processSubscription avr s r = Inr (d, q, r1)"
      using processSubscription_total by blast
    show ?thesis
    proof (cases q)
      case True
      with False p Cons.IH [of pd True r1] Cons.prems show ?thesis by auto
    next
      case nq: False
      show ?thesis
      proof (cases d)
        case None
        with False p nq Cons.IH [of pd rq r1] Cons.prems show ?thesis by auto
      next
        case (Some dec')
        from False p nq Some Cons.prems
        have l: "processSubscriptionsLoop avr items (AList.update (subName s) dec' pd, rq, r1) =
                   Inr (pd', rq', r')" by simp
        from Cons.IH [OF l Cons.prems(2)]
        show ?thesis using False p nq Some
          by (auto simp: update_conv' split: if_splits)
      qed
    qed
  qed
qed

lemma loop_entries_kept:
  "processSubscriptionsLoop avr subs (pd, rq, r) = Inr (pd', rq', r') \<Longrightarrow>
   name \<notin> subName ` set subs \<Longrightarrow> map_of pd' name = map_of pd name"
proof (induction subs arbitrary: pd rq r)
  case Nil
  then show ?case by simp
next
  case (Cons s items)
  show ?case
  proof (cases "isLocalSubscription s")
    case True
    with Cons.IH [of pd rq r] Cons.prems show ?thesis by simp
  next
    case False
    obtain d q r1 where p: "processSubscription avr s r = Inr (d, q, r1)"
      using processSubscription_total by blast
    show ?thesis
    proof (cases q)
      case True
      with False p Cons.IH [of pd True r1] Cons.prems show ?thesis by auto
    next
      case nq: False
      show ?thesis
      proof (cases d)
        case None
        with False p nq Cons.IH [of pd rq r1] Cons.prems show ?thesis by auto
      next
        case (Some dec')
        from False p nq Some Cons.prems
        have l: "processSubscriptionsLoop avr items (AList.update (subName s) dec' pd, rq, r1) =
                   Inr (pd', rq', r')" by simp
        from Cons.IH [OF l] Cons.prems(2)
        show ?thesis by (auto simp: update_conv')
      qed
    qed
  qed
qed

lemma loop_entries_complete:
  "processSubscriptionsLoop avr subs (pd, rq, r) = Inr (pd', rq', r') \<Longrightarrow>
   distinct (map subName subs) \<Longrightarrow>
   (s, Some dec, False) \<in> set (outcomes avr subs r) \<Longrightarrow>
   map_of pd' (subName s) = Some dec"
proof (induction subs arbitrary: pd rq r)
  case Nil
  then show ?case by simp
next
  case (Cons s0 items)
  have inItems: "\<And>r1. (s, Some dec, False) \<in> set (outcomes avr items r1) \<Longrightarrow> s \<in> set items"
  proof -
    fix r1 assume "(s, Some dec, False) \<in> set (outcomes avr items r1)"
    then have "s \<in> set (map fst (outcomes avr items r1))" by force
    then show "s \<in> set items" by (simp add: outcomes_subscriptions)
  qed
  show ?case
  proof (cases "isLocalSubscription s0")
    case True
    with Cons.IH [of pd rq r] Cons.prems show ?thesis by simp
  next
    case False
    obtain d q r1 where p: "processSubscription avr s0 r = Inr (d, q, r1)"
      using processSubscription_total by blast
    from Cons.prems(3) False p
    consider (here) "s = s0" "d = Some dec" "\<not> q"
      | (later) "(s, Some dec, False) \<in> set (outcomes avr items r1)"
      by auto
    then show ?thesis
    proof cases
      case here
      from False p here Cons.prems(1)
      have l: "processSubscriptionsLoop avr items (AList.update (subName s0) dec pd, rq, r1) =
                 Inr (pd', rq', r')" by simp
      have "subName s0 \<notin> subName ` set items" using Cons.prems(2) by simp
      from loop_entries_kept [OF l this] here show ?thesis by (simp add: update_conv')
    next
      case later
      have d: "distinct (map subName items)" using Cons.prems(2) by simp
      show ?thesis
      proof (cases q)
        case True
        with False p Cons.prems(1) Cons.IH [of pd True r1, OF _ d later] show ?thesis by simp
      next
        case nq: False
        show ?thesis
        proof (cases d)
          case None
          with False p nq Cons.prems(1) Cons.IH [of pd rq r1, OF _ d later] show ?thesis by simp
        next
          case (Some dec')
          with False p nq Cons.prems(1)
            Cons.IH [of "AList.update (subName s0) dec' pd" rq r1, OF _ d later]
          show ?thesis by simp
        qed
      qed
    qed
  qed
qed

lemma loop_skips_local:
  "processSubscriptionsLoop avr (filter (\<lambda>s. \<not> isLocalSubscription s) subs) acc =
   processSubscriptionsLoop avr subs acc"
proof (induction subs arbitrary: acc)
  case Nil
  show ?case by simp
next
  case (Cons s items)
  obtain pd rq r where acc: "acc = (pd, rq, r)" by (cases acc)
  show ?case
  proof (cases "isLocalSubscription s")
    case True
    with Cons acc show ?thesis by simp
  next
    case False
    with Cons acc show ?thesis
      by (simp split: sum.splits prod.splits option.splits)
  qed
qed

lemma processSubscriptions_total:
  "\<exists>placementDecisions requeue r'.
     processSubscriptions avr subscriptionList r = Inr (placementDecisions, requeue, r')"
  using loop_requeue [of avr subscriptionList "[]" False r]
  by (auto simp: processSubscriptions_def)

text \<open>
  The definitions a concrete pass is evaluated with.
\<close>

lemmas eval_defs =
  processSubscription_def processPausedSubscription_def waitForManifest_def unpauseSubscription_def
  vrgManifestWorkAlreadyExists_def processUnpausedSubscription_def selectPlacementDecision_def
  extractHomeClusterAndPeerCluster_def getManagedClustersUsingPlacementRule_def filterClusters_def
  requiredClusterReplicas_def hasStatus_def createOrUpdateVRGRolesManifestWork_def
  createOrUpdateVRGManifestWork_def createOrUpdatePVsManifestWork_def generateVRGRolesManifestWork_def
  generateVRGManifestWork_def generatePVManifestWork_def generateVRGClusterRoleManifest_def
  generateVRGClusterRoleBindingManifest_def generateVRGManifest_def generateManifest_def
  newManifestWork_def createOrUpdateManifestWork_def findManifestWork_def
  deleteExistingManfiestWork_def restorePVFromBackup_def listPVsFromS3Store_def lookupDecision_def
  findNextHomeCluster_def isSubsriptionPausedForDR_def mapIndex_def EqualFold_def toLowerASCII_def
  clientGetManifestWork_def clientCreateManifestWork_def clientUpdateManifestWork_def
  clientDeleteManifestWork_def clientGetPlacementRule_def clientUpdateSubscription_def
  sameSubscription_def omitEmpty_def
  issue_def IsNotFound_def ManifestWorkName_def MWTypeVRG_def MWTypePV_def
  RamenDRLabelName_def LabelSubscriptionPause_def SubscriptionPropagated_def
  SubscriptionSubscribed_def isLocalSubscription_def numeral_2_eq_2 Let_def

lemma outcomes_threeApps:
  "outcomes avr1 threeApps hubFailingSixthCall =
     [(unpaused ''app1'', Some eastDecision, False),
      (unpaused ''app2'', None, True),
      (unpaused ''app3'', Some eastDecision, False)]"
  by (simp add: eval_defs threeApps_def hubFailingSixthCall_def unpaused_def app1_def hub_def
      avr1_def placement1_def eastWest_def eastDecision_def)

text \<open>
  Claim C5. \<^verbatim>\<open>processSubscriptions\<close> always returns (no subscription aborts the pass):
  every subscription that is not skipped has an outcome, in the order of the list; the
  requeue flag is the disjunction of the requeue outcomes; every entry of the decision map
  is the decision of a subscription whose outcome is not a requeue, and (the names of the
  listed subscriptions being distinct) every such decision is in the map under the name of
  its subscription; and the skipped subscriptions change nothing: the pass over the list
  without them returns the same decisions, flag and reconciler.
\<close>

theorem partial_failure_isolation:
  "\<exists>placementDecisions requeue r'.
     processSubscriptions avr subscriptionList r = Inr (placementDecisions, requeue, r') \<and>
     map fst (outcomes avr subscriptionList r) =
       filter (\<lambda>s. \<not> isLocalSubscription s) subscriptionList \<and>
     requeue = (\<exists>(s, d, needRequeue) \<in> set (outcomes avr subscriptionList r). needRequeue) \<and>
     (\<forall>name dec. map_of placementDecisions name = Some dec \<longrightarrow>
        (\<exists>s. (s, Some dec, False) \<in> set (outcomes avr subscriptionList r) \<and> subName s = name)) \<and>
     (distinct (map subName subscriptionList) \<longrightarrow>
        (\<forall>s dec. (s, Some dec, False) \<in> set (outcomes avr subscriptionList r) \<longrightarrow>
           map_of placementDecisions (subName s) = Some dec)) \<and>
     processSubscriptions avr (filter (\<lambda>s. \<not> isLocalSubscription s) subscriptionList) r =
       processSubscriptions avr subscriptionList r"
proof -
  obtain pd r' where l: "processSubscriptionsLoop avr subscriptionList ([], False, r) =
     Inr (pd, False \<or> (\<exists>x\<in>set (outcomes avr subscriptionList r). snd (snd x)), r')"
    using loop_requeue by blast
  let ?rq = "False \<or> (\<exists>x\<in>set (outcomes avr subscriptionList r). snd (snd x))"
  have 1: "processSubscriptions avr subscriptionList r = Inr (pd, ?rq, r')"
    using l by (simp add: processSubscriptions_def)
  have 2: "?rq = (\<exists>(s, d, needRequeue) \<in> set (outcomes avr subscriptionList r). needRequeue)"
    by (simp add: case_prod_beta)
  have 3: "\<forall>name dec. map_of pd name = Some dec \<longrightarrow>
        (\<exists>s. (s, Some dec, False) \<in> set (outcomes avr subscriptionList r) \<and> subName s = name)"
    using loop_entries_sound [OF l] by auto
  have 4: "distinct (map subName subscriptionList) \<longrightarrow>
        (\<forall>s dec. (s, Some dec, False) \<in> set (outcomes avr subscriptionList r) \<longrightarrow>
           map_of pd (subName s) = Some dec)"
    using loop_entries_complete [OF l] by blast
  have 5: "processSubscriptions avr (filter (\<lambda>s. \<not> isLocalSubscription s) subscriptionList) r =
       processSubscriptions avr subscriptionList r"
    by (simp add: processSubscriptions_def loop_skips_local)
  from 1 2 3 4 5 outcomes_subscriptions [of avr subscriptionList r] show ?thesis
    by (intro exI [of _ pd] exI [of _ ?rq] exI [of _ r']) (simp only: simp_thms)
qed

theorem partial_failure_isolation_witness:
  "\<exists>placementDecisions r'.
     processSubscriptions avr1 threeApps hubFailingSixthCall = Inr (placementDecisions, True, r') \<and>
     map_of placementDecisions ''app1'' = Some eastDecision \<and>
     map_of placementDecisions ''app2'' = None \<and>
     map_of placementDecisions ''app3'' = Some eastDecision \<and>
     map_of placementDecisions ''app4'' = None"
proof -
  note o = outcomes_threeApps
  from partial_failure_isolation [of avr1 threeApps hubFailingSixthCall]
  obtain pd rq r' where
    p: "processSubscriptions avr1 threeApps hubFailingSixthCall = Inr (pd, rq, r')"
    and rq: "rq = (\<exists>(s, d, needRequeue) \<in> set (outcomes avr1 threeApps hubFailingSixthCall). needRequeue)"
    and sound: "\<forall>name dec. map_of pd name = Some dec \<longrightarrow>
        (\<exists>s. (s, Some dec, False) \<in> set (outcomes avr1 threeApps hubFailingSixthCall) \<and> subName s = name)"
    and complete: "distinct (map subName threeApps) \<longrightarrow>
        (\<forall>s dec. (s, Some dec, False) \<in> set (outcomes avr1 threeApps hubFailingSixthCall) \<longrightarrow>
           map_of pd (subName s) = Some dec)"
    by blast
  have d: "distinct (map subName threeApps)"
    by (simp add: threeApps_def unpaused_def)
  have 1: "rq" using rq o by simp
  have 2: "map_of pd (subName (unpaused ''app1'')) = Some eastDecision"
    using complete d o by simp
  have 3: "map_of pd (subName (unpaused ''app3'')) = Some eastDecision"
    using complete d o by simp
  have 4: "map_of pd ''app2'' = None"
  proof (cases "map_of pd ''app2''")
    case (Some dec)
    from sound [rule_format, OF Some] o show ?thesis by (auto simp: unpaused_def)
  qed simp
  have 5: "map_of pd ''app4'' = None"
  proof (cases "map_of pd ''app4''")
    case (Some dec)
    from sound [rule_format, OF Some] o show ?thesis by (auto simp: unpaused_def)
  qed simp
  from p 1 2 3 4 5 show ?thesis by (simp add: unpaused_def)
qed

subsection \<open>The status write of a pass\<close>

lemma loop_statusView:
  "processSubscriptionsLoop avr subs (pd, rq, r) = Inr (pd', rq', r') \<Longrightarrow>
   statusView r' = statusView r"
proof (induction subs arbitrary: pd rq r)
  case Nil
  then show ?case by simp
next
  case (Cons s items)
  show ?case
  proof (cases "isLocalSubscription s")
    case True
    with Cons.IH [of pd rq r] Cons.prems show ?thesis by simp
  next
    case False
    obtain d q r1 where p: "processSubscription avr s r = Inr (d, q, r1)"
      and v: "statusView r1 = statusView r"
      using processSubscription_total by blast
    show ?thesis
    proof (cases q)
      case True
      with False p v Cons.IH [of pd True r1] Cons.prems show ?thesis by simp
    next
      case nq: False
      show ?thesis
      proof (cases d)
        case None
        with False p v nq Cons.IH [of pd rq r1] Cons.prems show ?thesis by simp
      next
        case (Some dec)
        with False p v nq Cons.IH [of "AList.update (subName s) dec pd" rq r1] Cons.prems
        show ?thesis by simp
      qed
    qed
  qed
qed

lemma clientStatusUpdateAVR_fields:
  assumes "clientStatusUpdateAVR avr r = (err, r1)"
  shows "calls r1 = calls r @ [StatusUpdateAVR avr]"
    "err = None \<Longrightarrow> map_option Decisions (avrs r1 (avrNamespace avr, avrName avr)) = Some (Decisions avr)"
    "err = None \<Longrightarrow> k \<noteq> (avrNamespace avr, avrName avr) \<Longrightarrow> avrs r1 k = avrs r k"
    "err \<noteq> None \<Longrightarrow> avrs r1 = avrs r"
  using assms
  by (auto simp: clientStatusUpdateAVR_def issue_def Let_def split: list.splits if_splits option.splits)

text \<open>
  Claim C4. In a pass that has read its DR intent and listed its subscriptions, nothing
  before the aggregation writes status or changes a stored DR intent. With an empty
  decision map the pass ends there and returns the aggregated requeue flag. With a
  non-empty map it issues exactly one status update, of the DR intent with the aggregated
  map as its whole decision map; when that update succeeds the stored decision map is the
  aggregated map, every other stored DR intent is unchanged and the pass returns the
  aggregated requeue flag; when it fails nothing is stored and the pass asks for a requeue.
\<close>

theorem status_write:
  assumes get: "clientGetAVR req r = (Inr avr, r1)"
    and list: "clientListSubscriptions (avrNamespace avr) r1 = (Inr subscriptionList, r2)"
    and pass: "processSubscriptions avr subscriptionList r2 = Inr (placementDecisions, requeue, r3)"
  shows
   "avrs r3 = avrs r \<and> statusWrites (calls r3) = statusWrites (calls r) \<and>
    (placementDecisions = [] \<longrightarrow> Reconcile req r = Inr ((requeue, None), r3)) \<and>
    (placementDecisions \<noteq> [] \<longrightarrow>
       (\<exists>err result r4.
          clientStatusUpdateAVR (avr\<lparr>Decisions := Some placementDecisions\<rparr>) r3 = (err, r4) \<and>
          Reconcile req r = Inr (result, r4) \<and>
          calls r4 = calls r3 @ [StatusUpdateAVR (avr\<lparr>Decisions := Some placementDecisions\<rparr>)] \<and>
          (err = None \<longrightarrow>
             result = (requeue, None) \<and>
             map_option Decisions (avrs r4 (avrNamespace avr, avrName avr)) = Some (Some placementDecisions) \<and>
             (\<forall>k. k \<noteq> (avrNamespace avr, avrName avr) \<longrightarrow> avrs r4 k = avrs r k)) \<and>
          (err \<noteq> None \<longrightarrow> result = (True, None) \<and> avrs r4 = avrs r)))"
proof -
  have v3: "statusView r3 = statusView r"
    using statusView_clientGetAVR [OF get] statusView_clientListSubscriptions [OF list]
      loop_statusView [OF pass [unfolded processSubscriptions_def]] by simp
  then have a: "avrs r3 = avrs r" and s: "statusWrites (calls r3) = statusWrites (calls r)"
    by (simp_all add: statusView_def)
  have e: "placementDecisions = [] \<longrightarrow> Reconcile req r = Inr ((requeue, None), r3)"
    using get list pass by (simp add: Reconcile_def)
  have n: "placementDecisions \<noteq> [] \<longrightarrow>
       (\<exists>err result r4.
          clientStatusUpdateAVR (avr\<lparr>Decisions := Some placementDecisions\<rparr>) r3 = (err, r4) \<and>
          Reconcile req r = Inr (result, r4) \<and>
          calls r4 = calls r3 @ [StatusUpdateAVR (avr\<lparr>Decisions := Some placementDecisions\<rparr>)] \<and>
          (err = None \<longrightarrow>
             result = (requeue, None) \<and>
             map_option Decisions (avrs r4 (avrNamespace avr, avrName avr)) = Some (Some placementDecisions) \<and>
             (\<forall>k. k \<noteq> (avrNamespace avr, avrName avr) \<longrightarrow> avrs r4 k = avrs r k)) \<and>
          (err \<noteq> None \<longrightarrow> result = (True, None) \<and> avrs r4 = avrs r))"
  proof
    assume ne: "placementDecisions \<noteq> []"
    let ?avr = "avr\<lparr>Decisions := Some placementDecisions\<rparr>"
    obtain err r4 where u: "clientStatusUpdateAVR ?avr r3 = (err, r4)"
      by (cases "clientStatusUpdateAVR ?avr r3")
    note f = clientStatusUpdateAVR_fields [OF u]
    show "\<exists>err result r4.
          clientStatusUpdateAVR ?avr r3 = (err, r4) \<and>
          Reconcile req r = Inr (result, r4) \<and>
          calls r4 = calls r3 @ [StatusUpdateAVR ?avr] \<and>
          (err = None \<longrightarrow>
             result = (requeue, None) \<and>
             map_option Decisions (avrs r4 (avrNamespace avr, avrName avr)) = Some (Some placementDecisions) \<and>
             (\<forall>k. k \<noteq> (avrNamespace avr, avrName avr) \<longrightarrow> avrs r4 k = avrs r k)) \<and>
          (err \<noteq> None \<longrightarrow> result = (True, None) \<and> avrs r4 = avrs r)"
    proof (cases err)
      case None
      have "Reconcile req r = Inr ((requeue, None), r4)"
        using get list pass ne u None by (simp add: Reconcile_def updateAVRStatus_def)
      with u f None a show ?thesis by auto
    next
      case (Some e)
      have "Reconcile req r = Inr ((True, None), r4)"
        using get list pass ne u Some by (simp add: Reconcile_def updateAVRStatus_def)
      with u f Some a show ?thesis by auto
    qed
  qed
  from a s e n show ?thesis by blast
qed

theorem status_write_witness:
  "((\<exists>r3. Reconcile (''ns1'', ''avr1'') hub = Inr ((True, None), r3) \<and>
          avrs r3 = avrs hub \<and> statusWrites (calls r3) = []) \<and>
   (\<exists>r4. Reconcile (''ns1'', ''avr1'') (hub\<lparr>subscriptions := [unpaused ''app1'']\<rparr>) =
            Inr ((False, None), r4) \<and>
          map_option Decisions (avrs r4 (''ns1'', ''avr1'')) = Some (Some [(''app1'', eastDecision)]) \<and>
          statusWrites (calls r4) =
            [StatusUpdateAVR (avr1\<lparr>Decisions := Some [(''app1'', eastDecision)]\<rparr>)])) \<and>
   (\<exists>r4. Reconcile (''ns1'', ''avr1'') hubStatusWriteFails = Inr ((True, None), r4) \<and>
         avrs r4 = avrs hubStatusWriteFails \<and>
         statusWrites (calls r4) =
           [StatusUpdateAVR (avr1\<lparr>Decisions := Some [(''app1'', eastDecision)]\<rparr>)])"
proof -
  have part1: "(\<exists>r3. Reconcile (''ns1'', ''avr1'') hub = Inr ((True, None), r3) \<and>
          avrs r3 = avrs hub \<and> statusWrites (calls r3) = []) \<and>
   (\<exists>r4. Reconcile (''ns1'', ''avr1'') (hub\<lparr>subscriptions := [unpaused ''app1'']\<rparr>) =
            Inr ((False, None), r4) \<and>
          map_option Decisions (avrs r4 (''ns1'', ''avr1'')) = Some (Some [(''app1'', eastDecision)]) \<and>
          statusWrites (calls r4) =
            [StatusUpdateAVR (avr1\<lparr>Decisions := Some [(''app1'', eastDecision)]\<rparr>)])"
  proof -
    let ?req = "(''ns1'', ''avr1'')"
    have ns: "avrNamespace avr1 = ''ns1''" "avrName avr1 = ''avr1''" by (simp_all add: avr1_def)
    \<comment> \<open>a paused subscription: no decision, no status write\<close>
    have g: "clientGetAVR ?req hub = (Inr avr1, hub\<lparr>calls := [GetAVR ?req]\<rparr>)"
      by (simp add: clientGetAVR_def issue_def hub_def)
    have l: "clientListSubscriptions (avrNamespace avr1) (hub\<lparr>calls := [GetAVR ?req]\<rparr>) =
        (Inr [app1], hub\<lparr>calls := [GetAVR ?req, ListSubscriptions ''ns1'']\<rparr>)"
      by (simp add: clientListSubscriptions_def issue_def hub_def ns app1_def)
    obtain pd rq r3 where p: "processSubscriptions avr1 [app1]
        (hub\<lparr>calls := [GetAVR ?req, ListSubscriptions ''ns1'']\<rparr>) = Inr (pd, rq, r3)"
      using processSubscriptions_total by blast
    then have pd: "pd = []" and rq: "rq = True"
      by (auto simp: processSubscriptions_def eval_defs app1_def hub_def avr1_def)
    from status_write [OF g l p] pd rq
    have 1: "\<exists>r3. Reconcile ?req hub = Inr ((True, None), r3) \<and>
            avrs r3 = avrs hub \<and> statusWrites (calls r3) = []"
      by (auto simp: statusWrites_def hub_def)
    \<comment> \<open>an unpaused subscription: one decision, one status write\<close>
    let ?hub = "hub\<lparr>subscriptions := [unpaused ''app1'']\<rparr>"
    have g': "clientGetAVR ?req ?hub = (Inr avr1, ?hub\<lparr>calls := [GetAVR ?req]\<rparr>)"
      by (simp add: clientGetAVR_def issue_def hub_def)
    have l': "clientListSubscriptions (avrNamespace avr1) (?hub\<lparr>calls := [GetAVR ?req]\<rparr>) =
        (Inr [unpaused ''app1''], ?hub\<lparr>calls := [GetAVR ?req, ListSubscriptions ''ns1'']\<rparr>)"
      by (simp add: clientListSubscriptions_def issue_def hub_def ns app1_def unpaused_def)
    obtain pd' rq' r3' where p': "processSubscriptions avr1 [unpaused ''app1'']
        (?hub\<lparr>calls := [GetAVR ?req, ListSubscriptions ''ns1'']\<rparr>) = Inr (pd', rq', r3')"
      using processSubscriptions_total by blast
    then have pd': "pd' = [(''app1'', eastDecision)]" and rq': "rq' = False"
      and f3: "faults r3' = []" and a3: "avrs r3' (''ns1'', ''avr1'') = Some avr1"
      by (auto simp: processSubscriptions_def eval_defs unpaused_def app1_def hub_def avr1_def
          placement1_def eastWest_def eastDecision_def)
    obtain err r4 where u: "clientStatusUpdateAVR (avr1\<lparr>Decisions := Some pd'\<rparr>) r3' = (err, r4)"
      by (cases "clientStatusUpdateAVR (avr1\<lparr>Decisions := Some pd'\<rparr>) r3'")
    then have err: "err = None"
      using f3 a3 by (auto simp: clientStatusUpdateAVR_def issue_def ns)
    from status_write [OF g' l' p'] pd' u err
    have "\<exists>r4. Reconcile ?req ?hub = Inr ((rq', None), r4) \<and>
            map_option Decisions (avrs r4 (''ns1'', ''avr1'')) = Some (Some [(''app1'', eastDecision)]) \<and>
            calls r4 = calls r3' @ [StatusUpdateAVR (avr1\<lparr>Decisions := Some [(''app1'', eastDecision)]\<rparr>)] \<and>
            statusWrites (calls r3') = statusWrites (calls ?hub)"
      by (auto simp: ns)
    then have 2: "\<exists>r4. Reconcile ?req ?hub = Inr ((False, None), r4) \<and>
            map_option Decisions (avrs r4 (''ns1'', ''avr1'')) = Some (Some [(''app1'', eastDecision)]) \<and>
            statusWrites (calls r4) =
              [StatusUpdateAVR (avr1\<lparr>Decisions := Some [(''app1'', eastDecision)]\<rparr>)]"
      using rq' by (auto simp: statusWrites_def hub_def)
    from 1 2 show ?thesis by blast
  qed
  have part2: "\<exists>r4. Reconcile (''ns1'', ''avr1'') hubStatusWriteFails = Inr ((True, None), r4) \<and>
         avrs r4 = avrs hubStatusWriteFails \<and>
         statusWrites (calls r4) =
           [StatusUpdateAVR (avr1\<lparr>Decisions := Some [(''app1'', eastDecision)]\<rparr>)]"
  proof -
    let ?req = "(''ns1'', ''avr1'')"
    let ?hub = hubStatusWriteFails
    have ns: "avrNamespace avr1 = ''ns1''" "avrName avr1 = ''avr1''" by (simp_all add: avr1_def)
    obtain x r1 where g: "clientGetAVR ?req ?hub = (x, r1)" by (cases "clientGetAVR ?req ?hub")
    then have x: "x = Inr avr1"
      and r1: "r1 = ?hub\<lparr>calls := [GetAVR ?req], faults := [False, False, False, False, False, False, True]\<rparr>"
      by (auto simp: clientGetAVR_def issue_def hubStatusWriteFails_def hub_def)
    obtain y r2 where l: "clientListSubscriptions (avrNamespace avr1) r1 = (y, r2)"
      by (cases "clientListSubscriptions (avrNamespace avr1) r1")
    then have y: "y = Inr [unpaused ''app1'']"
      and r2: "r2 = ?hub\<lparr>calls := [GetAVR ?req, ListSubscriptions ''ns1''],
                          faults := [False, False, False, False, False, True]\<rparr>"
      by (auto simp: r1 clientListSubscriptions_def issue_def hubStatusWriteFails_def hub_def ns
          app1_def unpaused_def)
    obtain pd rq r3 where p: "processSubscriptions avr1 [unpaused ''app1''] r2 = Inr (pd, rq, r3)"
      using processSubscriptions_total by blast
    then have pd: "pd = [(''app1'', eastDecision)]" and f3: "faults r3 = [True]"
      by (auto simp: r2 processSubscriptions_def eval_defs unpaused_def app1_def
          hubStatusWriteFails_def hub_def avr1_def placement1_def eastWest_def eastDecision_def)
    obtain err r4 where u: "clientStatusUpdateAVR (avr1\<lparr>Decisions := Some pd\<rparr>) r3 = (err, r4)"
      by (cases "clientStatusUpdateAVR (avr1\<lparr>Decisions := Some pd\<rparr>) r3")
    then have err: "err \<noteq> None"
      using f3 by (auto simp: clientStatusUpdateAVR_def issue_def)
    from status_write [OF g [unfolded x] l [unfolded y] p] pd u err
    have "\<exists>r4. Reconcile ?req ?hub = Inr ((True, None), r4) \<and> avrs r4 = avrs ?hub \<and>
            calls r4 = calls r3 @ [StatusUpdateAVR (avr1\<lparr>Decisions := Some [(''app1'', eastDecision)]\<rparr>)] \<and>
            statusWrites (calls r3) = statusWrites (calls ?hub)"
      by auto
    then show ?thesis
      by (auto simp: statusWrites_def hubStatusWriteFails_def hub_def)
  qed
  from part1 part2 show ?thesis by blast
qed

subsection \<open>The failover sequence\<close>

lemma findManifestWork_result:
  assumes "h \<noteq> []" "findManifestWork sub h t r = (res, r1)"
  shows "calls r1 = calls r @ [GetManifestWork (h, ManifestWorkName (subName sub) (subNamespace sub) t)]"
    "manifestWorks r1 = manifestWorks r" "subscriptions r1 = subscriptions r"
    "res = Inl (Wrap ''failed to retrieve manifestwork'' IOError) \<or>
     res = Inr (manifestWorks r (h, ManifestWorkName (subName sub) (subNamespace sub) t))"
    "S3 r1 = S3 r" "constructBucketName r1 = constructBucketName r"
proof -
  let ?k = "(h, ManifestWorkName (subName sub) (subNamespace sub) t)"
  obtain x r' where g: "clientGetManifestWork ?k r = (x, r')" by (cases "clientGetManifestWork ?k r")
  have r1: "r1 = r'" using assms g
    by (auto simp: findManifestWork_def Let_def split: sum.splits if_splits)
  show "calls r1 = calls r @ [GetManifestWork ?k]" "manifestWorks r1 = manifestWorks r"
    "subscriptions r1 = subscriptions r"
    using clientGetManifestWork_fields [OF g] r1 by simp_all
  show "res = Inl (Wrap ''failed to retrieve manifestwork'' IOError) \<or> res = Inr (manifestWorks r ?k)"
    using clientGetManifestWork_result [OF g] assms g
    by (auto simp: findManifestWork_def Let_def IsNotFound_def split: sum.splits if_splits)
  show "S3 r1 = S3 r" "constructBucketName r1 = constructBucketName r"
    using g r1
    by (auto simp: clientGetManifestWork_def issue_def split: list.splits if_splits option.splits)
qed

lemma findManifestWork_read_succeeds:
  assumes "h \<noteq> []" "case faults r of [] \<Rightarrow> True | failed # rest \<Rightarrow> \<not> failed"
  shows "\<exists>r1. findManifestWork sub h t r =
           (Inr (manifestWorks r (h, ManifestWorkName (subName sub) (subNamespace sub) t)), r1)"
  using assms
  by (auto simp: findManifestWork_def clientGetManifestWork_def issue_def Let_def IsNotFound_def
      split: list.splits option.splits)

lemma findManifestWork_read_fails:
  assumes "h \<noteq> []" "case faults r of [] \<Rightarrow> False | failed # rest \<Rightarrow> failed"
  shows "\<exists>r1. findManifestWork sub h t r =
           (Inl (Wrap ''failed to retrieve manifestwork'' IOError), r1)"
  using assms
  by (auto simp: findManifestWork_def clientGetManifestWork_def issue_def Let_def IsNotFound_def
      split: list.splits option.splits)

text \<open>
  With the volume-restore ManifestWork present on the failover target,
  \<^verbatim>\<open>processPausedSubscription\<close> issues the read of it and returns.
\<close>

lemma paused_restore_found:
  assumes target: "findNextHomeCluster avr subscription = newHome" "newHome \<noteq> []"
    and present: "manifestWorks r (newHome,
        ManifestWorkName (subName subscription) (subNamespace subscription) MWTypePV) = Some pvMW"
  shows "\<exists>res r1.
     processPausedSubscription avr subscription r = (res, r1) \<and>
     calls r1 = calls r @ [GetManifestWork (newHome,
        ManifestWorkName (subName subscription) (subNamespace subscription) MWTypePV)] \<and>
     manifestWorks r1 = manifestWorks r \<and> subscriptions r1 = subscriptions r \<and>
     (res = Inr (newHome, Some pvMW) \<or>
      res = Inl (Wrap ''failed to get PV ManifestWork'' (Wrap ''failed to retrieve manifestwork'' IOError))) \<and>
     ((case faults r of [] \<Rightarrow> True | failed # rest \<Rightarrow> \<not> failed) \<longrightarrow>
        res = Inr (newHome, Some pvMW)) \<and>
     ((case faults r of [] \<Rightarrow> False | failed # rest \<Rightarrow> failed) \<longrightarrow>
        res = Inl (Wrap ''failed to get PV ManifestWork'' (Wrap ''failed to retrieve manifestwork'' IOError)))"
proof -
  obtain x r1 where f: "findManifestWork subscription newHome MWTypePV r = (x, r1)"
    by (cases "findManifestWork subscription newHome MWTypePV r")
  note fr = findManifestWork_result [OF target(2) f]
  have ok: "(case faults r of [] \<Rightarrow> True | failed # rest \<Rightarrow> \<not> failed) \<longrightarrow> x = Inr (Some pvMW)"
    using findManifestWork_read_succeeds [OF target(2), of r subscription MWTypePV] f present
    by auto
  have ko: "(case faults r of [] \<Rightarrow> False | failed # rest \<Rightarrow> failed) \<longrightarrow>
      x = Inl (Wrap ''failed to retrieve manifestwork'' IOError)"
    using findManifestWork_read_fails [OF target(2), of r subscription MWTypePV] f
    by auto
  from fr(4) have "x = Inl (Wrap ''failed to retrieve manifestwork'' IOError) \<or> x = Inr (Some pvMW)"
    using present by simp
  then show ?thesis
  proof
    assume x: "x = Inl (Wrap ''failed to retrieve manifestwork'' IOError)"
    have "processPausedSubscription avr subscription r =
        (Inl (Wrap ''failed to get PV ManifestWork'' (Wrap ''failed to retrieve manifestwork'' IOError)), r1)"
      using target f x by (simp add: processPausedSubscription_def)
    with fr(1,2,3) ok ko x show ?thesis by simp
  next
    assume x: "x = Inr (Some pvMW)"
    have "processPausedSubscription avr subscription r = (Inr (newHome, Some pvMW), r1)"
      using target f x by (simp add: processPausedSubscription_def)
    with fr(1,2,3) ok ko x show ?thesis by simp
  qed
qed

text \<open>A pass over a paused subscription whose volume-restore ManifestWork is not applied.\<close>

lemma paused_restore_pending:
  assumes paused: "isSubsriptionPausedForDR (subLabels subscription)"
    and target: "findNextHomeCluster avr subscription = newHome" "newHome \<noteq> []"
    and present: "manifestWorks r (newHome,
        ManifestWorkName (subName subscription) (subNamespace subscription) MWTypePV) = Some pvMW"
    and notApplied: "IsManifestInAppliedState pvMW = Inr (False, pvMW')"
  shows "\<exists>r1.
     r1 = snd (processPausedSubscription avr subscription r) \<and>
     processSubscription avr subscription r = Inr (None, True, r1) \<and>
     calls r1 = calls r @ [GetManifestWork (newHome,
        ManifestWorkName (subName subscription) (subNamespace subscription) MWTypePV)] \<and>
     manifestWorks r1 = manifestWorks r \<and> subscriptions r1 = subscriptions r"
proof -
  from paused_restore_found [OF target present]
  obtain res r1 where 1:
    "processPausedSubscription avr subscription r = (res, r1)"
    "calls r1 = calls r @ [GetManifestWork (newHome,
        ManifestWorkName (subName subscription) (subNamespace subscription) MWTypePV)]"
    "manifestWorks r1 = manifestWorks r" "subscriptions r1 = subscriptions r"
    "res = Inr (newHome, Some pvMW) \<or>
      res = Inl (Wrap ''failed to get PV ManifestWork'' (Wrap ''failed to retrieve manifestwork'' IOError))"
    by blast
  have w: "waitForManifest subscription newHome (Some pvMW) r1 = Inr (True, r1)"
    using notApplied by (simp add: waitForManifest_def)
  have "processSubscription avr subscription r = Inr (None, True, r1)"
    using 1(5) paused 1(1) w by (auto simp: processSubscription_def)
  with 1 show ?thesis by simp
qed

lemma app1_paused: "isSubsriptionPausedForDR (subLabels app1)"
  by (simp add: isSubsriptionPausedForDR_def app1_def mapIndex_def RamenDRLabelName_def
      LabelSubscriptionPause_def EqualFold_def toLowerASCII_def)

text \<open>
  Claim C7. For a paused subscription with a failover target on which the volume-restore
  ManifestWork exists, applied or not: \<^verbatim>\<open>processPausedSubscription\<close> issues the read of
  that ManifestWork and nothing else (no deletion, no restore) and leaves the store as it
  is; when the read does not fail it returns the ManifestWork it found, and when the read
  fails it returns the error. The applied-wait on the found ManifestWork issues no
  further call and answers wait exactly when the condition evaluator finds it not applied;
  when it is applied, the pass goes on to the unpause. When it is not applied, the
  outcome is a requeue with no decision, a second run on the reconciler the first one
  left gives the same outcome, the two runs together issue two reads, and the stored
  ManifestWorks and subscriptions are unchanged, for every fault schedule of the store.
\<close>

theorem failover_idempotent:
  assumes paused: "isSubsriptionPausedForDR (subLabels subscription)"
    and target: "findNextHomeCluster avr subscription = newHome" "newHome \<noteq> []"
    and present: "manifestWorks r (newHome,
        ManifestWorkName (subName subscription) (subNamespace subscription) MWTypePV) = Some pvMW"
  shows "\<exists>res r1 applied pvMW'.
     processPausedSubscription avr subscription r = (res, r1) \<and>
     calls r1 = calls r @ [GetManifestWork (newHome,
        ManifestWorkName (subName subscription) (subNamespace subscription) MWTypePV)] \<and>
     manifestWorks r1 = manifestWorks r \<and> subscriptions r1 = subscriptions r \<and>
     ((case faults r of [] \<Rightarrow> True | failed # rest \<Rightarrow> \<not> failed) \<longrightarrow>
        res = Inr (newHome, Some pvMW)) \<and>
     ((case faults r of [] \<Rightarrow> False | failed # rest \<Rightarrow> failed) \<longrightarrow>
        res = Inl (Wrap ''failed to get PV ManifestWork'' (Wrap ''failed to retrieve manifestwork'' IOError))) \<and>
     IsManifestInAppliedState pvMW = Inr (applied, pvMW') \<and>
     waitForManifest subscription newHome (Some pvMW) r1 = Inr (\<not> applied, r1) \<and>
     (applied \<and> res = Inr (newHome, Some pvMW) \<longrightarrow>
        processSubscription avr subscription r =
          Inr (None, True, snd (snd (unpauseSubscription subscription r1)))) \<and>
     (\<not> applied \<longrightarrow>
        (\<exists>r2. processSubscription avr subscription r = Inr (None, True, r1) \<and>
              processSubscription avr subscription r1 = Inr (None, True, r2) \<and>
              calls r2 = calls r @
                [GetManifestWork (newHome,
                   ManifestWorkName (subName subscription) (subNamespace subscription) MWTypePV),
                 GetManifestWork (newHome,
                   ManifestWorkName (subName subscription) (subNamespace subscription) MWTypePV)] \<and>
              manifestWorks r2 = manifestWorks r \<and> subscriptions r2 = subscriptions r))"
proof -
  let ?get = "GetManifestWork (newHome,
        ManifestWorkName (subName subscription) (subNamespace subscription) MWTypePV)"
  from paused_restore_found [OF target present]
  obtain res r1 where 1:
    "processPausedSubscription avr subscription r = (res, r1)"
    "calls r1 = calls r @ [?get]"
    "manifestWorks r1 = manifestWorks r" "subscriptions r1 = subscriptions r"
    "(case faults r of [] \<Rightarrow> True | failed # rest \<Rightarrow> \<not> failed) \<longrightarrow>
        res = Inr (newHome, Some pvMW)"
    "(case faults r of [] \<Rightarrow> False | failed # rest \<Rightarrow> failed) \<longrightarrow>
        res = Inl (Wrap ''failed to get PV ManifestWork'' (Wrap ''failed to retrieve manifestwork'' IOError))"
    by blast
  obtain applied pvMW' where e: "IsManifestInAppliedState pvMW = Inr (applied, pvMW')"
    using IsManifestInAppliedState_total [of pvMW] by blast
  have w: "waitForManifest subscription newHome (Some pvMW) r1 = Inr (\<not> applied, r1)"
    using e by (simp add: waitForManifest_def)
  have u: "applied \<and> res = Inr (newHome, Some pvMW) \<longrightarrow>
        processSubscription avr subscription r =
          Inr (None, True, snd (snd (unpauseSubscription subscription r1)))"
  proof
    assume a: "applied \<and> res = Inr (newHome, Some pvMW)"
    obtain err s r3 where un: "unpauseSubscription subscription r1 = (err, s, r3)"
      by (cases "unpauseSubscription subscription r1")
    show "processSubscription avr subscription r =
          Inr (None, True, snd (snd (unpauseSubscription subscription r1)))"
      using paused 1(1) a w un by (cases err) (simp_all add: processSubscription_def)
  qed
  have twice: "\<not> applied \<longrightarrow>
        (\<exists>r2. processSubscription avr subscription r = Inr (None, True, r1) \<and>
              processSubscription avr subscription r1 = Inr (None, True, r2) \<and>
              calls r2 = calls r @ [?get, ?get] \<and>
              manifestWorks r2 = manifestWorks r \<and> subscriptions r2 = subscriptions r)"
  proof
    assume "\<not> applied"
    with e have notApplied: "IsManifestInAppliedState pvMW = Inr (False, pvMW')" by simp
    from paused_restore_pending [OF paused target present notApplied] 1(1)
    have first: "processSubscription avr subscription r = Inr (None, True, r1)" by simp
    have present1: "manifestWorks r1 (newHome,
        ManifestWorkName (subName subscription) (subNamespace subscription) MWTypePV) = Some pvMW"
      using present 1(3) by simp
    from paused_restore_pending [OF paused target present1 notApplied]
    obtain r2 where 2:
      "processSubscription avr subscription r1 = Inr (None, True, r2)"
      "calls r2 = calls r1 @ [?get]"
      "manifestWorks r2 = manifestWorks r1" "subscriptions r2 = subscriptions r1"
      by blast
    from first 2 1 show "\<exists>r2. processSubscription avr subscription r = Inr (None, True, r1) \<and>
              processSubscription avr subscription r1 = Inr (None, True, r2) \<and>
              calls r2 = calls r @ [?get, ?get] \<and>
              manifestWorks r2 = manifestWorks r \<and> subscriptions r2 = subscriptions r"
      by (intro exI [of _ r2]) simp
  qed
  from 1 e w u twice show ?thesis
    by (intro exI [of _ res] exI [of _ r1] exI [of _ applied] exI [of _ pvMW']) simp
qed

theorem failover_idempotent_witness:
  "(\<exists>r1 r2.
      processPausedSubscription avr1 app1 hubRestorePending =
        (Inr (''west'', Some (restoreWork [applied5, degraded5])), r1) \<and>
      waitForManifest app1 ''west'' (Some (restoreWork [applied5, degraded5])) r1 = Inr (True, r1) \<and>
      processSubscription avr1 app1 hubRestorePending = Inr (None, True, r1) \<and>
      processSubscription avr1 app1 r1 = Inr (None, True, r2) \<and>
      calls r2 = [GetManifestWork (''west'', ''app1-ns1-pv-mw''),
                  GetManifestWork (''west'', ''app1-ns1-pv-mw'')] \<and>
      manifestWorks r2 = manifestWorks hubRestorePending) \<and>
   (\<exists>r1.
      processPausedSubscription avr1 app1
        (hub\<lparr>manifestWorks := [(''west'', ''app1-ns1-pv-mw'') \<mapsto> restoreWork [applied5, degraded3]]\<rparr>) =
        (Inr (''west'', Some (restoreWork [applied5, degraded3])), r1) \<and>
      calls r1 = [GetManifestWork (''west'', ''app1-ns1-pv-mw'')] \<and>
      waitForManifest app1 ''west'' (Some (restoreWork [applied5, degraded3])) r1 = Inr (False, r1)) \<and>
   (\<exists>r1.
      processPausedSubscription avr1 app1 (hubRestorePending\<lparr>faults := [True]\<rparr>) =
        (Inl (Wrap ''failed to get PV ManifestWork'' (Wrap ''failed to retrieve manifestwork'' IOError)),
         r1) \<and>
      calls r1 = [GetManifestWork (''west'', ''app1-ns1-pv-mw'')] \<and>
      manifestWorks r1 = manifestWorks hubRestorePending)"
proof -
  let ?applied = "hub\<lparr>manifestWorks :=
      [(''west'', ''app1-ns1-pv-mw'') \<mapsto> restoreWork [applied5, degraded3]]\<rparr>"
  have t: "findNextHomeCluster avr1 app1 = ''west''" "''west'' \<noteq> []"
    by (simp_all add: findNextHomeCluster_def mapIndex_def avr1_def app1_def)
  have n: "ManifestWorkName (subName app1) (subNamespace app1) MWTypePV = ''app1-ns1-pv-mw''"
    by (simp add: ManifestWorkName_def MWTypePV_def app1_def)
  have p: "manifestWorks hubRestorePending
             (''west'', ManifestWorkName (subName app1) (subNamespace app1) MWTypePV) =
           Some (restoreWork [applied5, degraded5])"
    by (simp add: n hubRestorePending_def)
  have a: "IsManifestInAppliedState (restoreWork [applied5, degraded5]) =
             Inr (False, restoreWork [applied5, degraded5])"
    by (simp add: IsManifestInAppliedState_def getMostRecentConditions_def sort_Slice_def
        insertionStep_def moreRecent_def Before_def decoded_def filterByConditionStatus_def
        applied5_def degraded5_def restoreWork_def WorkApplied_def WorkDegraded_def
        ConditionTrue_def)
  have f: "faults hubRestorePending = []"
    by (simp add: hubRestorePending_def hub_def)
  from failover_idempotent [OF app1_paused t p] a f
  have 1: "\<exists>r1 r2.
      processPausedSubscription avr1 app1 hubRestorePending =
        (Inr (''west'', Some (restoreWork [applied5, degraded5])), r1) \<and>
      waitForManifest app1 ''west'' (Some (restoreWork [applied5, degraded5])) r1 = Inr (True, r1) \<and>
      processSubscription avr1 app1 hubRestorePending = Inr (None, True, r1) \<and>
      processSubscription avr1 app1 r1 = Inr (None, True, r2) \<and>
      calls r2 = [GetManifestWork (''west'', ''app1-ns1-pv-mw''),
                  GetManifestWork (''west'', ''app1-ns1-pv-mw'')] \<and>
      manifestWorks r2 = manifestWorks hubRestorePending"
    by (auto simp: n hubRestorePending_def hub_def)
  have p2: "manifestWorks ?applied
             (''west'', ManifestWorkName (subName app1) (subNamespace app1) MWTypePV) =
           Some (restoreWork [applied5, degraded3])"
    by (simp add: n)
  have a2: "IsManifestInAppliedState (restoreWork [applied5, degraded3]) =
             Inr (True, restoreWork [applied5, degraded3])"
    by (simp add: IsManifestInAppliedState_def getMostRecentConditions_def sort_Slice_def
        insertionStep_def moreRecent_def Before_def decoded_def filterByConditionStatus_def
        applied5_def degraded3_def restoreWork_def WorkApplied_def WorkDegraded_def
        ConditionTrue_def)
  have f2: "faults ?applied = []"
    by (simp add: hub_def)
  from failover_idempotent [OF app1_paused t p2] a2 f2
  have 2: "\<exists>r1.
      processPausedSubscription avr1 app1 ?applied =
        (Inr (''west'', Some (restoreWork [applied5, degraded3])), r1) \<and>
      calls r1 = [GetManifestWork (''west'', ''app1-ns1-pv-mw'')] \<and>
      waitForManifest app1 ''west'' (Some (restoreWork [applied5, degraded3])) r1 = Inr (False, r1)"
    by (auto simp: n hub_def)
  have p3: "manifestWorks (hubRestorePending\<lparr>faults := [True]\<rparr>)
             (''west'', ManifestWorkName (subName app1) (subNamespace app1) MWTypePV) =
           Some (restoreWork [applied5, degraded5])"
    by (simp add: n hubRestorePending_def)
  from failover_idempotent [OF app1_paused t p3]
  have 3: "\<exists>r1.
      processPausedSubscription avr1 app1 (hubRestorePending\<lparr>faults := [True]\<rparr>) =
        (Inl (Wrap ''failed to get PV ManifestWork'' (Wrap ''failed to retrieve manifestwork'' IOError)),
         r1) \<and>
      calls r1 = [GetManifestWork (''west'', ''app1-ns1-pv-mw'')] \<and>
      manifestWorks r1 = manifestWorks hubRestorePending"
    by (auto simp: n hubRestorePending_def hub_def)
  from 1 2 3 show ?thesis by blast
qed

lemma issue_bundleWrites:
  "issue c r = (failed, r1) \<Longrightarrow> \<not> isBundleWrite c \<Longrightarrow>
   bundleWrites (calls r1) = bundleWrites (calls r)"
  by (auto simp: issue_def bundleWrites_def split: list.splits)

lemma deleteExistingManfiestWork_result:
  assumes "deleteExistingManfiestWork avr sub r = (err, r1)"
  shows "bundleWrites (calls r1) = bundleWrites (calls r)"
    "manifestWorks r k = None \<Longrightarrow> manifestWorks r1 k = None"
    "subscriptions r1 = subscriptions r" "S3 r1 = S3 r"
    "constructBucketName r1 = constructBucketName r"
  using assms
  by (auto simp: deleteExistingManfiestWork_def clientGetManifestWork_def
      clientDeleteManifestWork_def issue_def bundleWrites_def Let_def IsNotFound_def
      split: option.splits prod.splits sum.splits if_splits list.splits)

text \<open>
  The two ways the lookup inside \<^verbatim>\<open>waitForManifest\<close> can end after a restore that found no
  volume record.
\<close>

lemma empty_restore_read_succeeds:
  assumes paused: "isSubsriptionPausedForDR (subLabels subscription)"
    and target: "findNextHomeCluster avr subscription = newHome" "newHome \<noteq> []"
    and first: "findManifestWork subscription newHome MWTypePV r = (Inr None, r1)"
    and stale: "deleteExistingManfiestWork avr subscription r1 = (None, r2)"
    and empty: "listPVsFromS3Store avr subscription r = Inr []"
    and reads: "case faults r2 of [] \<Rightarrow> True | failed # rest \<Rightarrow> \<not> failed"
  shows "\<exists>labels err r3 r4.
     subLabels subscription = Some labels \<and>
     processPausedSubscription avr subscription r = (Inr (newHome, None), r2) \<and>
     bundleWrites (calls r2) = bundleWrites (calls r) \<and>
     waitForManifest subscription newHome None r2 = Inr (False, r3) \<and>
     calls r3 = calls r2 @ [GetManifestWork (newHome,
        ManifestWorkName (subName subscription) (subNamespace subscription) MWTypePV)] \<and>
     unpauseSubscription subscription r3 =
       (err, subscription\<lparr>subLabels := Some (labels(LabelSubscriptionPause \<mapsto> ''false''))\<rparr>, r4) \<and>
     calls r4 = calls r3 @
       [UpdateSubscription (subscription\<lparr>subLabels := Some (labels(LabelSubscriptionPause \<mapsto> ''false''))\<rparr>)] \<and>
     processSubscription avr subscription r = Inr (None, True, r4) \<and>
     bundleWrites (calls r4) = bundleWrites (calls r)"
proof -
  let ?k = "(newHome, ManifestWorkName (subName subscription) (subNamespace subscription) MWTypePV)"
  note f1 = findManifestWork_result [OF target(2) first]
  note d = deleteExistingManfiestWork_result [OF stale]
  from f1(4) have absent: "manifestWorks r ?k = None" by simp
  then have absent2: "manifestWorks r2 ?k = None" using f1(2) d(2) by simp
  have "listPVsFromS3Store avr subscription r2 = Inr []"
    using empty f1(5,6) d(4,5) by (simp add: listPVsFromS3Store_def)
  then have restore: "restorePVFromBackup avr subscription newHome r2 = (None, r2)"
    by (simp add: restorePVFromBackup_def)
  have pp: "processPausedSubscription avr subscription r = (Inr (newHome, None), r2)"
    using target first stale restore by (simp add: processPausedSubscription_def)
  have bw2: "bundleWrites (calls r2) = bundleWrites (calls r)"
    using d(1) f1(1) by (simp add: bundleWrites_def)
  from findManifestWork_read_succeeds [OF target(2) reads, of subscription MWTypePV] absent2
  obtain r3 where f2: "findManifestWork subscription newHome MWTypePV r2 = (Inr None, r3)"
    by auto
  note f2r = findManifestWork_result [OF target(2) f2]
  have w: "waitForManifest subscription newHome None r2 = Inr (False, r3)"
    using f2 by (simp add: waitForManifest_def)
  obtain labels where l: "subLabels subscription = Some labels"
    using paused by (cases "subLabels subscription") (simp_all add: isSubsriptionPausedForDR_def)
  let ?s = "subscription\<lparr>subLabels := Some (labels(LabelSubscriptionPause \<mapsto> ''false''))\<rparr>"
  obtain err r4 where u: "clientUpdateSubscription ?s r3 = (err, r4)"
    by (cases "clientUpdateSubscription ?s r3")
  have un: "unpauseSubscription subscription r3 = (err, ?s, r4)"
    using l u by (simp add: unpauseSubscription_def)
  have c4: "calls r4 = calls r3 @ [UpdateSubscription ?s]"
    using clientUpdateSubscription_calls [OF u] .
  have ps: "processSubscription avr subscription r = Inr (None, True, r4)"
    using paused pp w un by (cases err) (simp_all add: processSubscription_def)
  have bw4: "bundleWrites (calls r4) = bundleWrites (calls r)"
    using bw2 c4 f2r(1) by (simp add: bundleWrites_def)
  from l pp bw2 w f2r(1) un c4 ps bw4 show ?thesis
    by (intro exI [of _ labels] exI [of _ err] exI [of _ r3] exI [of _ r4]) simp
qed

lemma empty_restore_read_fails:
  assumes paused: "isSubsriptionPausedForDR (subLabels subscription)"
    and target: "findNextHomeCluster avr subscription = newHome" "newHome \<noteq> []"
    and first: "findManifestWork subscription newHome MWTypePV r = (Inr None, r1)"
    and stale: "deleteExistingManfiestWork avr subscription r1 = (None, r2)"
    and empty: "listPVsFromS3Store avr subscription r = Inr []"
    and fails: "case faults r2 of [] \<Rightarrow> False | failed # rest \<Rightarrow> failed"
  shows "\<exists>r3.
     waitForManifest subscription newHome None r2 = Inr (True, r3) \<and>
     processSubscription avr subscription r = Inr (None, True, r3) \<and>
     calls r3 = calls r2 @ [GetManifestWork (newHome,
        ManifestWorkName (subName subscription) (subNamespace subscription) MWTypePV)]"
proof -
  note f1 = findManifestWork_result [OF target(2) first]
  note d = deleteExistingManfiestWork_result [OF stale]
  have "listPVsFromS3Store avr subscription r2 = Inr []"
    using empty f1(5,6) d(4,5) by (simp add: listPVsFromS3Store_def)
  then have restore: "restorePVFromBackup avr subscription newHome r2 = (None, r2)"
    by (simp add: restorePVFromBackup_def)
  have pp: "processPausedSubscription avr subscription r = (Inr (newHome, None), r2)"
    using target first stale restore by (simp add: processPausedSubscription_def)
  from findManifestWork_read_fails [OF target(2) fails, of subscription MWTypePV]
  obtain r3 where f2: "findManifestWork subscription newHome MWTypePV r2 =
      (Inl (Wrap ''failed to retrieve manifestwork'' IOError), r3)"
    by blast
  note f2r = findManifestWork_result [OF target(2) f2]
  have w: "waitForManifest subscription newHome None r2 = Inr (True, r3)"
    using f2 by (simp add: waitForManifest_def)
  have ps: "processSubscription avr subscription r = Inr (None, True, r3)"
    using paused pp w by (simp add: processSubscription_def)
  from w ps f2r(1) show ?thesis by blast
qed

text \<open>
  Claim C8, as stated, fails where it says that the sequence proceeds directly to the
  unpause: with no restore ManifestWork in hand, \<^verbatim>\<open>waitForManifest\<close> looks the restore
  ManifestWork up once more, and when that read fails it answers wait. On the hub whose
  second client call fails, the backup store returns no volume record and the pass ends
  after its two reads, with a requeue and no update of the subscription.
\<close>

theorem empty_restore_lookup_fails:
  "isSubsriptionPausedForDR (subLabels app1) \<and>
   listPVsFromS3Store avr1 app1 hubSecondReadFails = Inr [] \<and>
   processSubscription avr1 app1 hubSecondReadFails =
     Inr (None, True,
          hub\<lparr>calls := [GetManifestWork (''west'', ''app1-ns1-pv-mw''),
                        GetManifestWork (''west'', ''app1-ns1-pv-mw'')]\<rparr>)"
  by (simp add: eval_defs listPVsFromS3Store_def hubSecondReadFails_def hub_def app1_def avr1_def)

text \<open>
  Claim C8, amended. For a paused subscription with a failover target, when the first
  lookup finds no volume-restore ManifestWork, the deletion of the stale ManifestWork
  succeeds and the backup store returns no volume record:
  \<^verbatim>\<open>processPausedSubscription\<close> returns without a ManifestWork and without having created or
  updated any. \<^verbatim>\<open>waitForManifest\<close> then looks the restore ManifestWork up once more. When
  that read does not fail, it answers not to wait and the unpause is issued: one update of
  the subscription with the pause label set to \<^verbatim>\<open>false\<close>; whatever the update returns,
  the outcome is a requeue with no decision, and no ManifestWork was created or updated.
  When that read fails, it answers wait, and the outcome is a requeue with no decision and
  no unpause.
\<close>

theorem empty_restore_unpauses:
  assumes paused: "isSubsriptionPausedForDR (subLabels subscription)"
    and target: "findNextHomeCluster avr subscription = newHome" "newHome \<noteq> []"
    and first: "findManifestWork subscription newHome MWTypePV r = (Inr None, r1)"
    and stale: "deleteExistingManfiestWork avr subscription r1 = (None, r2)"
    and empty: "listPVsFromS3Store avr subscription r = Inr []"
  shows
   "processPausedSubscription avr subscription r = (Inr (newHome, None), r2) \<and>
    bundleWrites (calls r2) = bundleWrites (calls r) \<and>
    ((case faults r2 of [] \<Rightarrow> True | failed # rest \<Rightarrow> \<not> failed) \<longrightarrow>
       (\<exists>labels err r3 r4.
          subLabels subscription = Some labels \<and>
          waitForManifest subscription newHome None r2 = Inr (False, r3) \<and>
          calls r3 = calls r2 @ [GetManifestWork (newHome,
             ManifestWorkName (subName subscription) (subNamespace subscription) MWTypePV)] \<and>
          unpauseSubscription subscription r3 =
            (err, subscription\<lparr>subLabels := Some (labels(LabelSubscriptionPause \<mapsto> ''false''))\<rparr>, r4) \<and>
          calls r4 = calls r3 @
            [UpdateSubscription
               (subscription\<lparr>subLabels := Some (labels(LabelSubscriptionPause \<mapsto> ''false''))\<rparr>)] \<and>
          processSubscription avr subscription r = Inr (None, True, r4) \<and>
          bundleWrites (calls r4) = bundleWrites (calls r))) \<and>
    ((case faults r2 of [] \<Rightarrow> False | failed # rest \<Rightarrow> failed) \<longrightarrow>
       (\<exists>r3.
          waitForManifest subscription newHome None r2 = Inr (True, r3) \<and>
          processSubscription avr subscription r = Inr (None, True, r3) \<and>
          calls r3 = calls r2 @ [GetManifestWork (newHome,
             ManifestWorkName (subName subscription) (subNamespace subscription) MWTypePV)]))"
proof (intro conjI impI)
  note f1 = findManifestWork_result [OF target(2) first]
  note d = deleteExistingManfiestWork_result [OF stale]
  have "listPVsFromS3Store avr subscription r2 = Inr []"
    using empty f1(5,6) d(4,5) by (simp add: listPVsFromS3Store_def)
  then have restore: "restorePVFromBackup avr subscription newHome r2 = (None, r2)"
    by (simp add: restorePVFromBackup_def)
  show "processPausedSubscription avr subscription r = (Inr (newHome, None), r2)"
    using target first stale restore by (simp add: processPausedSubscription_def)
  show "bundleWrites (calls r2) = bundleWrites (calls r)"
    using d(1) f1(1) by (simp add: bundleWrites_def)
next
  assume reads: "case faults r2 of [] \<Rightarrow> True | failed # rest \<Rightarrow> \<not> failed"
  from empty_restore_read_succeeds [OF paused target first stale empty reads]
  show "\<exists>labels err r3 r4.
          subLabels subscription = Some labels \<and>
          waitForManifest subscription newHome None r2 = Inr (False, r3) \<and>
          calls r3 = calls r2 @ [GetManifestWork (newHome,
             ManifestWorkName (subName subscription) (subNamespace subscription) MWTypePV)] \<and>
          unpauseSubscription subscription r3 =
            (err, subscription\<lparr>subLabels := Some (labels(LabelSubscriptionPause \<mapsto> ''false''))\<rparr>, r4) \<and>
          calls r4 = calls r3 @
            [UpdateSubscription
               (subscription\<lparr>subLabels := Some (labels(LabelSubscriptionPause \<mapsto> ''false''))\<rparr>)] \<and>
          processSubscription avr subscription r = Inr (None, True, r4) \<and>
          bundleWrites (calls r4) = bundleWrites (calls r)"
    by (elim exE conjE) (intro exI conjI, assumption+)
next
  assume fails: "case faults r2 of [] \<Rightarrow> False | failed # rest \<Rightarrow> failed"
  from empty_restore_read_fails [OF paused target first stale empty fails]
  show "\<exists>r3.
          waitForManifest subscription newHome None r2 = Inr (True, r3) \<and>
          processSubscription avr subscription r = Inr (None, True, r3) \<and>
          calls r3 = calls r2 @ [GetManifestWork (newHome,
             ManifestWorkName (subName subscription) (subNamespace subscription) MWTypePV)]" .
qed

theorem empty_restore_unpauses_witness:
  "(\<exists>err r4.
     processSubscription avrAfterEast app1 hubEast = Inr (None, True, r4) \<and>
     calls r4 = [GetManifestWork (''west'', ''app1-ns1-pv-mw''),
                 GetManifestWork (''east'', ''app1-ns1-vrg-mw''),
                 DeleteManifestWork vrgWork,
                 GetManifestWork (''west'', ''app1-ns1-pv-mw''),
                 UpdateSubscription
                   (app1\<lparr>subLabels := Some [''ramendr'' \<mapsto> ''protected'',
                                             ''subscription-pause'' \<mapsto> ''false'']\<rparr>)]) \<and>
   (\<exists>r3. processSubscription avr1 app1 hubSecondReadFails = Inr (None, True, r3) \<and>
         calls r3 = [GetManifestWork (''west'', ''app1-ns1-pv-mw''),
                     GetManifestWork (''west'', ''app1-ns1-pv-mw'')])"
proof -
  have part1: "\<exists>err r4.
     processSubscription avrAfterEast app1 hubEast = Inr (None, True, r4) \<and>
     calls r4 = [GetManifestWork (''west'', ''app1-ns1-pv-mw''),
                 GetManifestWork (''east'', ''app1-ns1-vrg-mw''),
                 DeleteManifestWork vrgWork,
                 GetManifestWork (''west'', ''app1-ns1-pv-mw''),
                 UpdateSubscription
                   (app1\<lparr>subLabels := Some [''ramendr'' \<mapsto> ''protected'',
                                             ''subscription-pause'' \<mapsto> ''false'']\<rparr>)]"
  proof -
    have t: "findNextHomeCluster avrAfterEast app1 = ''west''" "''west'' \<noteq> []"
      by (simp_all add: findNextHomeCluster_def mapIndex_def avrAfterEast_def avr1_def app1_def)
    have n: "ManifestWorkName (subName app1) (subNamespace app1) MWTypePV = ''app1-ns1-pv-mw''"
      by (simp add: ManifestWorkName_def MWTypePV_def app1_def)
    obtain x r1 where f: "findManifestWork app1 ''west'' MWTypePV hubEast = (x, r1)"
      by (cases "findManifestWork app1 ''west'' MWTypePV hubEast")
    then have x: "x = Inr None" and r1: "r1 = hubEast\<lparr>calls := [GetManifestWork (''west'', ''app1-ns1-pv-mw'')]\<rparr>"
      by (auto simp: findManifestWork_def clientGetManifestWork_def issue_def IsNotFound_def n
          hubEast_def hub_def)
    obtain e r2 where d: "deleteExistingManfiestWork avrAfterEast app1 r1 = (e, r2)"
      by (cases "deleteExistingManfiestWork avrAfterEast app1 r1")
    then have e: "e = None" and f2: "faults r2 = []"
      and c2: "calls r2 = [GetManifestWork (''west'', ''app1-ns1-pv-mw''),
                   GetManifestWork (''east'', ''app1-ns1-vrg-mw''), DeleteManifestWork vrgWork]"
      by (auto simp: r1 deleteExistingManfiestWork_def lookupDecision_def clientGetManifestWork_def
          clientDeleteManifestWork_def issue_def IsNotFound_def ManifestWorkName_def MWTypeVRG_def
          Let_def avrAfterEast_def avr1_def app1_def eastDecision_def hubEast_def hub_def vrgWork_def)
    have l: "listPVsFromS3Store avrAfterEast app1 hubEast = Inr []"
      by (simp add: listPVsFromS3Store_def hubEast_def hub_def)
    have rd: "case faults r2 of [] \<Rightarrow> True | failed # rest \<Rightarrow> \<not> failed"
      using f2 by simp
    from empty_restore_unpauses [OF app1_paused t f [unfolded x] d [unfolded e] l] rd
    have "\<exists>labels err r3 r4.
            subLabels app1 = Some labels \<and>
            waitForManifest app1 ''west'' None r2 = Inr (False, r3) \<and>
            calls r3 = calls r2 @ [GetManifestWork (''west'',
               ManifestWorkName (subName app1) (subNamespace app1) MWTypePV)] \<and>
            unpauseSubscription app1 r3 =
              (err, app1\<lparr>subLabels := Some (labels(LabelSubscriptionPause \<mapsto> ''false''))\<rparr>, r4) \<and>
            calls r4 = calls r3 @
              [UpdateSubscription
                 (app1\<lparr>subLabels := Some (labels(LabelSubscriptionPause \<mapsto> ''false''))\<rparr>)] \<and>
            processSubscription avrAfterEast app1 hubEast = Inr (None, True, r4) \<and>
            bundleWrites (calls r4) = bundleWrites (calls hubEast)"
      by blast
    with c2 show ?thesis
      by (elim exE conjE)
         (auto simp: ManifestWorkName_def MWTypePV_def app1_def LabelSubscriptionPause_def)
  qed
  have part2: "\<exists>r3. processSubscription avr1 app1 hubSecondReadFails = Inr (None, True, r3) \<and>
         calls r3 = [GetManifestWork (''west'', ''app1-ns1-pv-mw''),
                     GetManifestWork (''west'', ''app1-ns1-pv-mw'')]"
  proof -
    have t: "findNextHomeCluster avr1 app1 = ''west''" "''west'' \<noteq> []"
      by (simp_all add: findNextHomeCluster_def mapIndex_def avr1_def app1_def)
    obtain x r1 where f: "findManifestWork app1 ''west'' MWTypePV hubSecondReadFails = (x, r1)"
      by (cases "findManifestWork app1 ''west'' MWTypePV hubSecondReadFails")
    then have x: "x = Inr None"
      and r1: "r1 = hub\<lparr>calls := [GetManifestWork (''west'', ''app1-ns1-pv-mw'')], faults := [True]\<rparr>"
      by (auto simp: findManifestWork_def clientGetManifestWork_def issue_def IsNotFound_def
          ManifestWorkName_def MWTypePV_def app1_def hubSecondReadFails_def hub_def)
    have d: "deleteExistingManfiestWork avr1 app1 r1 = (None, r1)"
      by (simp add: deleteExistingManfiestWork_def lookupDecision_def avr1_def)
    have l: "listPVsFromS3Store avr1 app1 hubSecondReadFails = Inr []"
      by (simp add: listPVsFromS3Store_def hubSecondReadFails_def hub_def)
    have fl: "case faults r1 of [] \<Rightarrow> False | failed # rest \<Rightarrow> failed"
      by (simp add: r1)
    have c1: "calls r1 = [GetManifestWork (''west'', ''app1-ns1-pv-mw'')]"
      by (simp add: r1)
    from empty_restore_unpauses [OF app1_paused t f [unfolded x] d l] fl
    have "\<exists>r3. waitForManifest app1 ''west'' None r1 = Inr (True, r3) \<and>
            processSubscription avr1 app1 hubSecondReadFails = Inr (None, True, r3) \<and>
            calls r3 = calls r1 @ [GetManifestWork (''west'',
               ManifestWorkName (subName app1) (subNamespace app1) MWTypePV)]"
      by blast
    with c1 show ?thesis
      by (elim exE conjE) (auto simp: ManifestWorkName_def MWTypePV_def app1_def)
  qed
  from part1 part2 show ?thesis by blast
qed

end
